theory Spec2Isabelle
  imports Main "HOL-Library.Word" "HOL-Library.Signed_Division" "HOL-Library.Multiset"
    "HOL-Library.AList"
begin

section \<open>Abstract syntax (package ast)\<close>

text \<open>
  The node types the evaluator dispatches on, with the fields it reads. The \<open>Token\<close>
  field of every node is never read by the evaluator and is left out. An
  \<open>*ast.Identifier\<close> in a parameter list or a let statement is its \<open>Value\<close> string.
  The \<open>Pairs\<close> of a hash literal are a Go map from key node to value node: the list
  holds its entries in the order the parser inserted them (source order); the order
  in which \<open>range\<close> visits them is not this order (see \<open>rangeOrder\<close> below).
\<close>

type_synonym int64 = "64 word"

datatype expr =
    Identifier string
  | IntegerLiteral int64
  | Boolean_expr bool
  | StringLiteral string
  | PrefixExpression string expr
  | InfixExpression string expr expr
  | IfExpression expr block "block option"
  | FunctionLiteral "string list" block
  | CallExpression expr "expr list"
  | ArrayLiteral "expr list"
  | IndexExpression expr expr
  | HashLiteral "(expr \<times> expr) list"
and stmt =
    LetStatement string expr
  | ReturnStatement expr
  | ExpressionStatement expr
and block =
    BlockStatement "stmt list"

datatype node =
    Program "stmt list"
  | Statement stmt
  | Block block
  | Expression expr

section \<open>Runtime values (package object)\<close>

text \<open>
  An \<open>object.Object\<close> is a Go interface value holding a pointer. Every object made by
  \<open>&object.T{...}\<close> carries the address \<open>loc\<close> it was allocated at, so that the
  pointer comparisons of the evaluator (\<open>left == right\<close>) can be modelled. \<open>TRUE\<close>,
  \<open>FALSE\<close> and \<open>NULL\<close> are the three package-level singletons; the builtins are the
  six objects of the \<open>builtins\<close> table. \<open>NilObject\<close> is the nil interface value.
  The elements of an array live in the store (\<open>arrays\<close> of the state) at the array's
  address.
\<close>

type_synonym loc = nat

datatype ObjectType =
    INTEGER_OBJ | BOOLEAN_OBJ | STRING_OBJ | NULL_OBJ | ARRAY_OBJ | HASH_OBJ
  | FUNCTION_OBJ | BUILTIN_OBJ | RETURN_VALUE_OBJ | ERROR_OBJ

datatype builtinFn = LenFunc | FirstFunc | LastFunc | RestFunc | PushFunc | PutsFunc

datatype hashkey = HashKey ObjectType int64

datatype object =
    NilObject
  | Integer loc int64
  | Boolean bool
  | Null
  | String loc string
  | ReturnValue loc object
  | Error loc string
  | Function loc "string list" block loc
  | BuiltIn builtinFn
  | Array loc
  | Hash loc "(hashkey \<times> object \<times> object) list"

abbreviation TRUE :: object where "TRUE \<equiv> Boolean True"
abbreviation FALSE :: object where "FALSE \<equiv> Boolean False"
abbreviation NULL :: object where "NULL \<equiv> Null"

text \<open>
  Modelled from the spec: the type tags of package object (object.go is not among the
  sources), with the names section 4.4 of the specification lists for them. \<open>Type\<close> is
  the method \<open>Type()\<close>; on the nil interface value the call panics, which is \<open>None\<close>
  here and a \<open>Panic\<close> in every caller.
\<close>

fun typeName :: "ObjectType \<Rightarrow> string" where
  "typeName INTEGER_OBJ = ''INTEGER''"
| "typeName BOOLEAN_OBJ = ''BOOLEAN''"
| "typeName STRING_OBJ = ''STRING''"
| "typeName NULL_OBJ = ''NULL''"
| "typeName ARRAY_OBJ = ''ARRAY''"
| "typeName HASH_OBJ = ''HASH''"
| "typeName FUNCTION_OBJ = ''FUNCTION''"
| "typeName BUILTIN_OBJ = ''BUILTIN''"
| "typeName RETURN_VALUE_OBJ = ''RETURN_VALUE''"
| "typeName ERROR_OBJ = ''ERROR''"

fun Type :: "object \<Rightarrow> ObjectType option" where
  "Type NilObject = None"
| "Type (Integer l v) = Some INTEGER_OBJ"
| "Type (Boolean b) = Some BOOLEAN_OBJ"
| "Type Null = Some NULL_OBJ"
| "Type (String l v) = Some STRING_OBJ"
| "Type (ReturnValue l v) = Some RETURN_VALUE_OBJ"
| "Type (Error l m) = Some ERROR_OBJ"
| "Type (Function l ps b e) = Some FUNCTION_OBJ"
| "Type (BuiltIn f) = Some BUILTIN_OBJ"
| "Type (Array l) = Some ARRAY_OBJ"
| "Type (Hash l ps) = Some HASH_OBJ"

text \<open>
  Go compares two interface values by dynamic type and pointer. \<open>ptr\<close> is the
  pointer an object value holds.
\<close>

datatype pointer =
    NilPtr | TRUE_ptr | FALSE_ptr | NULL_ptr | BuiltIn_ptr builtinFn | Heap_ptr loc

fun ptr :: "object \<Rightarrow> pointer" where
  "ptr NilObject = NilPtr"
| "ptr (Integer l v) = Heap_ptr l"
| "ptr (Boolean b) = (if b then TRUE_ptr else FALSE_ptr)"
| "ptr Null = NULL_ptr"
| "ptr (String l v) = Heap_ptr l"
| "ptr (ReturnValue l v) = Heap_ptr l"
| "ptr (Error l m) = Heap_ptr l"
| "ptr (Function l ps b e) = Heap_ptr l"
| "ptr (BuiltIn f) = BuiltIn_ptr f"
| "ptr (Array l) = Heap_ptr l"
| "ptr (Hash l ps) = Heap_ptr l"

definition ptrEq :: "object \<Rightarrow> object \<Rightarrow> bool" where
  "ptrEq a b = (Type a = Type b \<and> ptr a = ptr b)"

text \<open>
  The parts of the host the sources leave open: the 64-bit digest of a string used by
  \<open>HashKey()\<close> (object.go is not among the sources; the specification only asks for a
  stable 64-bit hash of the bytes), and the order in which Go's \<open>range\<close> visits the
  entries of the \<open>Pairs\<close> map of a hash literal (unspecified by the language; every
  entry is visited once).
\<close>

record host =
  strHash :: "string \<Rightarrow> int64"
  rangeOrder :: "(expr \<times> expr) list \<Rightarrow> (expr \<times> expr) list"

definition host_ok :: "host \<Rightarrow> bool" where
  "host_ok h = (\<forall>ps. mset (rangeOrder h ps) = mset ps)"

text \<open>
  Modelled from the spec: \<open>HashKey()\<close> of the three hashable kinds (section 3.3: the
  type tag plus the 64-bit value, 0/1, or the digest of the string). \<open>None\<close> is an
  object that does not implement \<open>Hashable\<close>.
\<close>

fun HashKey_of :: "host \<Rightarrow> object \<Rightarrow> hashkey option" where
  "HashKey_of h (Integer l v) = Some (HashKey INTEGER_OBJ v)"
| "HashKey_of h (Boolean b) = Some (HashKey BOOLEAN_OBJ (if b then 1 else 0))"
| "HashKey_of h (String l v) = Some (HashKey STRING_OBJ (strHash h v))"
| "HashKey_of h obj = None"

section \<open>Results, state and environments\<close>

text \<open>
  A Go call returns, panics (the process aborts: a nil dereference, an index out of
  range, an integer division by zero, a failed type assertion), or does not return;
  \<open>Timeout\<close> is the evaluator running out of the fuel that bounds its recursion.
\<close>

datatype panic = nilDeref | indexOutOfRange | divideByZero | badConversion

datatype 'a res = Ok 'a | Panic panic | Timeout

definition andThen :: "'a res \<Rightarrow> ('a \<Rightarrow> 'b res) \<Rightarrow> 'b res" where
  "andThen m f = (case m of Ok x \<Rightarrow> f x | Panic p \<Rightarrow> Panic p | Timeout \<Rightarrow> Timeout)"

record env =
  store :: "string \<rightharpoonup> object"
  outer :: "loc option"

text \<open>
  The state: the environments and the element slices of the arrays, by address; the
  next unused address; and what \<open>puts\<close> has printed so far (the objects whose
  \<open>Inspect()\<close> was printed, one per line, oldest first).
\<close>

record state =
  envs :: "loc \<rightharpoonup> env"
  arrays :: "loc \<rightharpoonup> object list"
  nxt :: loc
  stdout :: "object list"

definition alloc :: "state \<Rightarrow> state" where
  "alloc s = s\<lparr>nxt := Suc (nxt s)\<rparr>"

definition NewClosedEnv :: "loc \<Rightarrow> state \<Rightarrow> loc \<times> state" where
  "NewClosedEnv outr s =
     (nxt s, s\<lparr>envs := (envs s)(nxt s \<mapsto> \<lparr>store = Map.empty, outer = Some outr\<rparr>),
               nxt := Suc (nxt s)\<rparr>)"

definition NewEnvironment :: "state \<Rightarrow> loc \<times> state" where
  "NewEnvironment s =
     (nxt s, s\<lparr>envs := (envs s)(nxt s \<mapsto> \<lparr>store = Map.empty, outer = None\<rparr>),
               nxt := Suc (nxt s)\<rparr>)"

text \<open>
  \<open>Get\<close> walks the chain of outer environments; the fuel bounds the walk. The result
  \<open>Some obj\<close> is \<open>(obj, true)\<close> and \<open>None\<close> is \<open>(nil, false)\<close>.
\<close>

fun Env_Get :: "nat \<Rightarrow> (loc \<rightharpoonup> env) \<Rightarrow> loc \<Rightarrow> string \<Rightarrow> (object option) res" where
  "Env_Get 0 es e name = Timeout"
| "Env_Get (Suc n) es e name =
     (case es e of
        None \<Rightarrow> Panic nilDeref
      | Some E \<Rightarrow>
          (case store E name of
             Some obj \<Rightarrow> Ok (Some obj)
           | None \<Rightarrow>
               (case outer E of
                  Some outr \<Rightarrow> Env_Get n es outr name
                | None \<Rightarrow> Ok None)))"

definition Env_Set :: "loc \<Rightarrow> string \<Rightarrow> object \<Rightarrow> state \<Rightarrow> state res" where
  "Env_Set e name val s =
     (case envs s e of
        None \<Rightarrow> Panic nilDeref
      | Some E \<Rightarrow> Ok (s\<lparr>envs := (envs s)(e \<mapsto> E\<lparr>store := (store E)(name \<mapsto> val)\<rparr>)\<rparr>))"

section \<open>The evaluator's helpers (evaluator.go)\<close>

definition newError :: "loc \<Rightarrow> string \<Rightarrow> object" where
  "newError l msg = Error l msg"

definition isError :: "object \<Rightarrow> bool" where
  "isError obj = (obj \<noteq> NilObject \<and> Type obj = Some ERROR_OBJ)"

definition nativeBoolToBooleanObject :: "bool \<Rightarrow> object" where
  "nativeBoolToBooleanObject b = (if b then TRUE else FALSE)"

fun isTruthy :: "object \<Rightarrow> bool" where
  "isTruthy Null = False"
| "isTruthy (Boolean b) = b"
| "isTruthy obj = True"

fun unwrapReturnValue :: "object \<Rightarrow> object" where
  "unwrapReturnValue (ReturnValue l v) = v"
| "unwrapReturnValue obj = obj"

fun evalBangOperatorExpression :: "object \<Rightarrow> object" where
  "evalBangOperatorExpression (Boolean b) = (if b then FALSE else TRUE)"
| "evalBangOperatorExpression Null = TRUE"
| "evalBangOperatorExpression right = FALSE"

fun evalMinusPrefixOperatorExpression :: "loc \<Rightarrow> object \<Rightarrow> object res" where
  "evalMinusPrefixOperatorExpression l NilObject = Panic nilDeref"
| "evalMinusPrefixOperatorExpression l (Integer lr v) = Ok (Integer l (v * (- 1)))"
| "evalMinusPrefixOperatorExpression l right =
     Ok (newError l (''unknown operator: -'' @ typeName (the (Type right))))"

definition evalPrefixExpression :: "loc \<Rightarrow> string \<Rightarrow> object \<Rightarrow> object res" where
  "evalPrefixExpression l op right =
     (if op = ''!'' then Ok (evalBangOperatorExpression right)
      else if op = ''-'' then evalMinusPrefixOperatorExpression l right
      else (case Type right of
              None \<Rightarrow> Panic nilDeref
            | Some rt \<Rightarrow> Ok (newError l (''unknown operator: '' @ op @ typeName rt))))"

text \<open>Go's \<open>/\<close> on int64 truncates towards zero and wraps at \<open>MinInt64 / -1\<close>.\<close>

definition go_div :: "int64 \<Rightarrow> int64 \<Rightarrow> int64" where
  "go_div a b = word_of_int (sint a sdiv sint b)"

fun evalIntegerInfixExpression :: "loc \<Rightarrow> string \<Rightarrow> object \<Rightarrow> object \<Rightarrow> object res" where
  "evalIntegerInfixExpression l op (Integer ll leftVal) (Integer lr rightVal) =
     (if op = ''+'' then Ok (Integer l (leftVal + rightVal))
      else if op = ''-'' then Ok (Integer l (leftVal - rightVal))
      else if op = ''*'' then Ok (Integer l (leftVal * rightVal))
      else if op = ''/'' then
        (if rightVal = 0 then Panic divideByZero
         else Ok (Integer l (go_div leftVal rightVal)))
      else if op = ''<'' then Ok (nativeBoolToBooleanObject (sint leftVal < sint rightVal))
      else if op = ''>'' then Ok (nativeBoolToBooleanObject (sint leftVal > sint rightVal))
      else if op = ''!='' then Ok (nativeBoolToBooleanObject (leftVal \<noteq> rightVal))
      else if op = ''=='' then Ok (nativeBoolToBooleanObject (leftVal = rightVal))
      else Ok (newError l (''unknown operator: '' @ typeName INTEGER_OBJ @ '' '' @ op
                           @ '' '' @ typeName INTEGER_OBJ)))"
| "evalIntegerInfixExpression l op left right = Panic badConversion"

fun evalStringInfixExpression :: "loc \<Rightarrow> string \<Rightarrow> object \<Rightarrow> object \<Rightarrow> object res" where
  "evalStringInfixExpression l op (String ll leftVal) (String lr rightVal) =
     (if op \<noteq> ''+'' then
        Ok (newError l (''unknown operator: '' @ typeName STRING_OBJ @ '' '' @ op
                        @ '' '' @ typeName STRING_OBJ))
      else Ok (String l (leftVal @ rightVal)))"
| "evalStringInfixExpression l op left right =
     (case (Type left, Type right) of
        (Some lt, Some rt) \<Rightarrow>
          (if op \<noteq> ''+'' then
             Ok (newError l (''unknown operator: '' @ typeName lt @ '' '' @ op
                             @ '' '' @ typeName rt))
           else Panic badConversion)
      | _ \<Rightarrow> Panic nilDeref)"

text \<open>
  The cases of the switch are tried in order; \<open>&&\<close> evaluates its right operand only
  when the left one is true, so \<open>right.Type()\<close> is called (and panics on nil) only
  where a case reaches it.
\<close>

definition evalInfixExpression :: "loc \<Rightarrow> string \<Rightarrow> object \<Rightarrow> object \<Rightarrow> object res" where
  "evalInfixExpression l op left right =
     (case Type left of
        None \<Rightarrow> Panic nilDeref
      | Some lt \<Rightarrow>
          if lt = INTEGER_OBJ \<and> Type right = None then Panic nilDeref
          else if lt = INTEGER_OBJ \<and> Type right = Some INTEGER_OBJ then
            evalIntegerInfixExpression l op left right
          else if op = ''=='' then Ok (nativeBoolToBooleanObject (ptrEq left right))
          else if op = ''!='' then Ok (nativeBoolToBooleanObject (\<not> ptrEq left right))
          else if lt = STRING_OBJ \<and> Type right = None then Panic nilDeref
          else if lt = STRING_OBJ \<and> Type right = Some STRING_OBJ then
            evalStringInfixExpression l op left right
          else (case Type right of
                  None \<Rightarrow> Panic nilDeref
                | Some rt \<Rightarrow>
                    if lt \<noteq> rt then
                      Ok (newError l (''type mismatch: '' @ typeName lt @ '' '' @ op
                                      @ '' '' @ typeName rt))
                    else
                      Ok (newError l (''unknown operator: '' @ typeName lt @ '' '' @ op
                                      @ '' '' @ typeName rt))))"


definition evalArrayIndexExpression :: "state \<Rightarrow> object \<Rightarrow> object \<Rightarrow> object res" where
  "evalArrayIndexExpression s array index =
     (case (array, index) of
        (Array la, Integer li idx) \<Rightarrow>
          (case arrays s la of
             None \<Rightarrow> Panic nilDeref
           | Some elements \<Rightarrow>
               if sint idx < 0 \<or> sint idx > int (length elements) - 1 then Ok NULL
               else Ok (elements ! nat (sint idx)))
      | _ \<Rightarrow> Panic badConversion)"

text \<open>A \<open>HashPair\<close> is the pair of its \<open>Key\<close> and its \<open>Value\<close>.\<close>

definition evalHashIndexExpression :: "host \<Rightarrow> loc \<Rightarrow> object \<Rightarrow> object \<Rightarrow> object res" where
  "evalHashIndexExpression h l hash index =
     (case hash of
        Hash lh pairs \<Rightarrow>
          (case HashKey_of h index of
             None \<Rightarrow>
               (case Type index of
                  None \<Rightarrow> Panic nilDeref
                | Some it \<Rightarrow> Ok (newError l (''unusable as hash key: '' @ typeName it)))
           | Some key \<Rightarrow>
               (case map_of pairs key of
                  None \<Rightarrow> Ok NULL
                | Some pair \<Rightarrow> Ok (snd pair)))
      | _ \<Rightarrow> Panic badConversion)"

definition evalIndexExpression :: "host \<Rightarrow> state \<Rightarrow> loc \<Rightarrow> object \<Rightarrow> object \<Rightarrow> object res" where
  "evalIndexExpression h s l left index =
     (case Type left of
        None \<Rightarrow> Panic nilDeref
      | Some lt \<Rightarrow>
          if lt = ARRAY_OBJ \<and> Type index = None then Panic nilDeref
          else if lt = ARRAY_OBJ \<and> Type index = Some INTEGER_OBJ then
            evalArrayIndexExpression s left index
          else if lt = HASH_OBJ then evalHashIndexExpression h l left index
          else (case Type index of
                  None \<Rightarrow> Panic nilDeref
                | Some it \<Rightarrow>
                    Ok (newError l (''index operator not supported: '' @ typeName lt
                                    @ ''['' @ typeName it @ '']''))))"

section \<open>Builtins (builtins.go)\<close>

text \<open>The decimal rendering of \<open>%d\<close>.\<close>

fun showNat :: "nat \<Rightarrow> string" where
  "showNat n =
     (if n < 10 then [char_of (48 + n)]
      else showNat (n div 10) @ [char_of (48 + n mod 10)])"

declare showNat.simps [simp del]

definition builtins :: "string \<Rightarrow> builtinFn option" where
  "builtins name =
     (if name = ''len'' then Some LenFunc
      else if name = ''first'' then Some FirstFunc
      else if name = ''last'' then Some LastFunc
      else if name = ''rest'' then Some RestFunc
      else if name = ''push'' then Some PushFunc
      else if name = ''puts'' then Some PutsFunc
      else None)"

definition wrongNumberOfArguments :: "nat \<Rightarrow> nat \<Rightarrow> string" where
  "wrongNumberOfArguments got want =
     ''wrong number of arguments. got='' @ showNat got @ '', want='' @ showNat want"

definition lenFunc :: "state \<Rightarrow> object list \<Rightarrow> (object \<times> state) res" where
  "lenFunc s args =
     (if length args \<noteq> 1 then
        Ok (newError (nxt s) (wrongNumberOfArguments (length args) 1), alloc s)
      else
        (case args ! 0 of
           String l v \<Rightarrow> Ok (Integer (nxt s) (of_nat (length v)), alloc s)
         | Array l \<Rightarrow>
             (case arrays s l of
                None \<Rightarrow> Panic nilDeref
              | Some elements \<Rightarrow> Ok (Integer (nxt s) (of_nat (length elements)), alloc s))
         | arg \<Rightarrow>
             (case Type arg of
                None \<Rightarrow> Panic nilDeref
              | Some t \<Rightarrow>
                  Ok (newError (nxt s)
                        (''argument to `len` not supported, got '' @ typeName t), alloc s))))"

text \<open>
  \<open>first\<close>, \<open>last\<close>, \<open>rest\<close> and \<open>push\<close> share their argument checks; each goes on
  with the elements of the array it was given.
\<close>

definition arrayArg ::
  "string \<Rightarrow> nat \<Rightarrow> state \<Rightarrow> object list \<Rightarrow> (object list \<Rightarrow> (object \<times> state) res)
     \<Rightarrow> (object \<times> state) res" where
  "arrayArg name want s args k =
     (if length args \<noteq> want then
        Ok (newError (nxt s) (wrongNumberOfArguments (length args) want), alloc s)
      else
        (case Type (args ! 0) of
           None \<Rightarrow> Panic nilDeref
         | Some t \<Rightarrow>
             if t \<noteq> ARRAY_OBJ then
               Ok (newError (nxt s)
                     (''argument to `'' @ name @ ''` must be ARRAY, got '' @ typeName t),
                   alloc s)
             else
               (case args ! 0 of
                  Array l \<Rightarrow>
                    (case arrays s l of
                       None \<Rightarrow> Panic nilDeref
                     | Some elements \<Rightarrow> k elements)
                | _ \<Rightarrow> Panic badConversion)))"

definition firstFunc :: "state \<Rightarrow> object list \<Rightarrow> (object \<times> state) res" where
  "firstFunc s args =
     arrayArg ''first'' 1 s args (\<lambda>elements.
       if length elements > 0 then Ok (elements ! 0, s) else Ok (NULL, s))"

definition lastFunc :: "state \<Rightarrow> object list \<Rightarrow> (object \<times> state) res" where
  "lastFunc s args =
     arrayArg ''last'' 1 s args (\<lambda>elements.
       if length elements > 0 then Ok (elements ! (length elements - 1), s)
       else Ok (NULL, s))"

text \<open>
  \<open>make\<close> (here \<open>make_slice\<close>) gives a slice of nil values; \<open>copy(dst, src)\<close> overwrites the first
  \<open>min (len dst) (len src)\<close> elements of \<open>dst\<close> and leaves \<open>src\<close> alone.
\<close>

definition make_slice :: "nat \<Rightarrow> object list" where
  "make_slice n = replicate n NilObject"

definition copy :: "object list \<Rightarrow> object list \<Rightarrow> object list" where
  "copy dst src =
     take (min (length dst) (length src)) src @ drop (min (length dst) (length src)) dst"

definition restFunc :: "state \<Rightarrow> object list \<Rightarrow> (object \<times> state) res" where
  "restFunc s args =
     arrayArg ''rest'' 1 s args (\<lambda>elements.
       let length' = length elements in
       if length elements > 0 then
         let newEls = copy (make_slice (length' - 1)) (drop 1 (take length' elements))
         in Ok (Array (nxt s), s\<lparr>arrays := (arrays s)(nxt s \<mapsto> newEls), nxt := Suc (nxt s)\<rparr>)
       else Ok (NULL, s))"

definition pushFunc :: "state \<Rightarrow> object list \<Rightarrow> (object \<times> state) res" where
  "pushFunc s args =
     arrayArg ''push'' 2 s args (\<lambda>elements.
       let length' = length elements;
           el = args ! 1;
           newEls = (copy (make_slice (length' + 1)) elements)[length' := el]
       in Ok (Array (nxt s), s\<lparr>arrays := (arrays s)(nxt s \<mapsto> newEls), nxt := Suc (nxt s)\<rparr>))"

fun putsFunc :: "state \<Rightarrow> object list \<Rightarrow> (object \<times> state) res" where
  "putsFunc s [] = Ok (NULL, s)"
| "putsFunc s (arg # args) =
     (if arg = NilObject then Panic nilDeref
      else putsFunc (s\<lparr>stdout := stdout s @ [arg]\<rparr>) args)"

fun callBuiltIn :: "builtinFn \<Rightarrow> state \<Rightarrow> object list \<Rightarrow> (object \<times> state) res" where
  "callBuiltIn LenFunc s args = lenFunc s args"
| "callBuiltIn FirstFunc s args = firstFunc s args"
| "callBuiltIn LastFunc s args = lastFunc s args"
| "callBuiltIn RestFunc s args = restFunc s args"
| "callBuiltIn PushFunc s args = pushFunc s args"
| "callBuiltIn PutsFunc s args = putsFunc s args"

section \<open>Identifiers and function application\<close>

definition evalIdentifier :: "nat \<Rightarrow> loc \<Rightarrow> string \<Rightarrow> loc \<Rightarrow> state \<Rightarrow> object res" where
  "evalIdentifier n l name env s =
     andThen (Env_Get n (envs s) env name) (\<lambda>r.
       case r of
         Some val \<Rightarrow> Ok val
       | None \<Rightarrow>
           (case builtins name of
              Some builtin \<Rightarrow> Ok (BuiltIn builtin)
            | None \<Rightarrow> Ok (newError l (''identifier not found: '' @ name))))"

fun extendFunctionEnv_loop ::
  "loc \<Rightarrow> nat \<Rightarrow> string list \<Rightarrow> object list \<Rightarrow> state \<Rightarrow> state res" where
  "extendFunctionEnv_loop env idx [] args s = Ok s"
| "extendFunctionEnv_loop env idx (param # params) args s =
     (if idx < length args then
        andThen (Env_Set env param (args ! idx) s)
          (\<lambda>s1. extendFunctionEnv_loop env (Suc idx) params args s1)
      else Panic indexOutOfRange)"

definition extendFunctionEnv ::
  "string list \<Rightarrow> loc \<Rightarrow> object list \<Rightarrow> state \<Rightarrow> (loc \<times> state) res" where
  "extendFunctionEnv params fenv args s =
     (case NewClosedEnv fenv s of
        (env, s1) \<Rightarrow>
          andThen (extendFunctionEnv_loop env 0 params args s1) (\<lambda>s2. Ok (env, s2)))"


section \<open>Eval (evaluator.go)\<close>

text \<open>
  \<open>Eval\<close> and the functions it calls call each other. Here each of them takes the
  \<open>Eval\<close> it calls back as its argument \<open>ev\<close>, and \<open>Eval\<close> itself passes \<open>Eval\<close> with
  one unit of fuel less: every call of \<open>Eval\<close> uses up one unit of fuel, so a Monkey
  program that recurses forever runs out of it (\<open>Timeout\<close>). The loops over statements,
  expressions and hash pairs take the local variable they update (\<open>res\<close>, \<open>result\<close>,
  \<open>pairs\<close>) as an argument. The argument \<open>env\<close> is the address of the environment.
\<close>

type_synonym evaluator = "node \<Rightarrow> loc \<Rightarrow> state \<Rightarrow> (object \<times> state) res"

fun evalProgram ::
  "evaluator \<Rightarrow> object \<Rightarrow> stmt list \<Rightarrow> loc \<Rightarrow> state \<Rightarrow> (object \<times> state) res" where
  "evalProgram ev res [] env s = Ok (res, s)"
| "evalProgram ev res (stmt # stmts) env s =
     andThen (ev (Statement stmt) env s) (\<lambda>(res', s1).
       case res' of
         ReturnValue l v \<Rightarrow> Ok (v, s1)
       | Error l m \<Rightarrow> Ok (res', s1)
       | _ \<Rightarrow> evalProgram ev res' stmts env s1)"

fun evalBlockStatement ::
  "evaluator \<Rightarrow> object \<Rightarrow> stmt list \<Rightarrow> loc \<Rightarrow> state \<Rightarrow> (object \<times> state) res" where
  "evalBlockStatement ev result [] env s = Ok (result, s)"
| "evalBlockStatement ev result (statement # statements) env s =
     andThen (ev (Statement statement) env s) (\<lambda>(result', s1).
       if result' \<noteq> NilObject
          \<and> (Type result' = Some RETURN_VALUE_OBJ \<or> Type result' = Some ERROR_OBJ)
       then Ok (result', s1)
       else evalBlockStatement ev result' statements env s1)"

definition evalIfExpression ::
  "evaluator \<Rightarrow> expr \<Rightarrow> block \<Rightarrow> block option \<Rightarrow> loc \<Rightarrow> state \<Rightarrow> (object \<times> state) res" where
  "evalIfExpression ev c cons alt env s =
     andThen (ev (Expression c) env s) (\<lambda>(condition, s1).
       if isError condition then Ok (condition, s1)
       else if isTruthy condition then ev (Block cons) env s1
       else (case alt of
               Some a \<Rightarrow> ev (Block a) env s1
             | None \<Rightarrow> Ok (NULL, s1)))"

fun evalExpressions ::
  "evaluator \<Rightarrow> object list \<Rightarrow> expr list \<Rightarrow> loc \<Rightarrow> state \<Rightarrow> (object list \<times> state) res" where
  "evalExpressions ev res [] env s = Ok (res, s)"
| "evalExpressions ev res (e # es) env s =
     andThen (ev (Expression e) env s) (\<lambda>(evaluated, s1).
       if isError evaluated then Ok ([evaluated], s1)
       else evalExpressions ev (res @ [evaluated]) es env s1)"

text \<open>
  The loop of \<open>evalHashLiteral\<close> over the pairs in the order \<open>range\<close> visits them, and
  the allocation of the hash at its end. \<open>pairs[hashed] = ...\<close> replaces the pair
  stored under \<open>hashed\<close>, or adds one.
\<close>

fun evalHashLiteral ::
  "host \<Rightarrow> evaluator \<Rightarrow> (hashkey \<times> object \<times> object) list \<Rightarrow> (expr \<times> expr) list \<Rightarrow> loc
     \<Rightarrow> state \<Rightarrow> (object \<times> state) res" where
  "evalHashLiteral h ev pairs [] env s = Ok (Hash (nxt s) pairs, alloc s)"
| "evalHashLiteral h ev pairs ((keyNode, valNode) # rest) env s =
     andThen (ev (Expression keyNode) env s) (\<lambda>(key, s1).
       if isError key then Ok (key, s1)
       else
         (case HashKey_of h key of
            None \<Rightarrow>
              (case Type key of
                 None \<Rightarrow> Panic nilDeref
               | Some t \<Rightarrow>
                   Ok (newError (nxt s1) (''unusable as hash key: '' @ typeName t), alloc s1))
          | Some hashed \<Rightarrow>
              andThen (ev (Expression valNode) env s1) (\<lambda>(val, s2).
                if isError val then Ok (val, s2)
                else evalHashLiteral h ev (AList.update hashed (key, val) pairs) rest env s2)))"

fun applyFunction ::
  "evaluator \<Rightarrow> object \<Rightarrow> object list \<Rightarrow> state \<Rightarrow> (object \<times> state) res" where
  "applyFunction ev (Function l params body fenv) args s =
     andThen (extendFunctionEnv params fenv args s) (\<lambda>(extendedEnv, s1).
       andThen (ev (Block body) extendedEnv s1) (\<lambda>(eval, s2).
         Ok (unwrapReturnValue eval, s2)))"
| "applyFunction ev (BuiltIn f) args s = callBuiltIn f s args"
| "applyFunction ev NilObject args s = Panic nilDeref"
| "applyFunction ev fn args s =
     Ok (newError (nxt s) (''not a function: '' @ typeName (the (Type fn))), alloc s)"

text \<open>The type switch of \<open>Eval\<close>, one equation for each case.\<close>

fun Eval_switch :: "host \<Rightarrow> nat \<Rightarrow> evaluator \<Rightarrow> evaluator" where
  "Eval_switch h n ev (Program stmts) env s = evalProgram ev NilObject stmts env s"
| "Eval_switch h n ev (Statement (ExpressionStatement e)) env s = ev (Expression e) env s"
| "Eval_switch h n ev (Block (BlockStatement stmts)) env s =
     evalBlockStatement ev NilObject stmts env s"
| "Eval_switch h n ev (Statement (ReturnStatement e)) env s =
     andThen (ev (Expression e) env s) (\<lambda>(val, s1).
       if isError val then Ok (val, s1)
       else Ok (ReturnValue (nxt s1) val, alloc s1))"
| "Eval_switch h n ev (Statement (LetStatement name e)) env s =
     andThen (ev (Expression e) env s) (\<lambda>(val, s1).
       if isError val then Ok (val, s1)
       else andThen (Env_Set env name val s1) (\<lambda>s2. Ok (NilObject, s2)))"
| "Eval_switch h n ev (Expression (IntegerLiteral v)) env s = Ok (Integer (nxt s) v, alloc s)"
| "Eval_switch h n ev (Expression (Boolean_expr v)) env s =
     Ok (nativeBoolToBooleanObject v, s)"
| "Eval_switch h n ev (Expression (StringLiteral v)) env s = Ok (String (nxt s) v, alloc s)"
| "Eval_switch h n ev (Expression (PrefixExpression op r)) env s =
     andThen (ev (Expression r) env s) (\<lambda>(right, s1).
       if isError right then Ok (right, s1)
       else andThen (evalPrefixExpression (nxt s1) op right) (\<lambda>v. Ok (v, alloc s1)))"
| "Eval_switch h n ev (Expression (InfixExpression op l r)) env s =
     andThen (ev (Expression l) env s) (\<lambda>(left, s1).
       if isError left then Ok (left, s1)
       else
         andThen (ev (Expression r) env s1) (\<lambda>(right, s2).
           if isError right then Ok (right, s2)
           else andThen (evalInfixExpression (nxt s2) op left right) (\<lambda>v. Ok (v, alloc s2))))"
| "Eval_switch h n ev (Expression (IfExpression c cons alt)) env s =
     evalIfExpression ev c cons alt env s"
| "Eval_switch h n ev (Expression (Identifier name)) env s =
     andThen (evalIdentifier n (nxt s) name env s) (\<lambda>v. Ok (v, alloc s))"
| "Eval_switch h n ev (Expression (FunctionLiteral params body)) env s =
     Ok (Function (nxt s) params body env, alloc s)"
| "Eval_switch h n ev (Expression (CallExpression f as)) env s =
     andThen (ev (Expression f) env s) (\<lambda>(fn, s1).
       if isError fn then Ok (fn, s1)
       else
         andThen (evalExpressions ev [] as env s1) (\<lambda>(args, s2).
           if length args = 1 \<and> isError (args ! 0) then Ok (args ! 0, s2)
           else applyFunction ev fn args s2))"
| "Eval_switch h n ev (Expression (ArrayLiteral es)) env s =
     andThen (evalExpressions ev [] es env s) (\<lambda>(els, s1).
       if length els = 1 \<and> isError (els ! 0) then Ok (els ! 0, s1)
       else Ok (Array (nxt s1),
                s1\<lparr>arrays := (arrays s1)(nxt s1 \<mapsto> els), nxt := Suc (nxt s1)\<rparr>))"
| "Eval_switch h n ev (Expression (IndexExpression l i)) env s =
     andThen (ev (Expression l) env s) (\<lambda>(left, s1).
       if isError left then Ok (left, s1)
       else
         andThen (ev (Expression i) env s1) (\<lambda>(idx, s2).
           if isError idx then Ok (idx, s2)
           else andThen (evalIndexExpression h s2 (nxt s2) left idx) (\<lambda>v. Ok (v, alloc s2))))"
| "Eval_switch h n ev (Expression (HashLiteral pairs)) env s =
     evalHashLiteral h ev [] (rangeOrder h pairs) env s"

fun Eval :: "host \<Rightarrow> nat \<Rightarrow> evaluator" where
  "Eval h 0 = (\<lambda>node env s. Timeout)"
| "Eval h (Suc n) = Eval_switch h n (Eval h n)"


section \<open>Tokens (package token) and the lexer\<close>

datatype TokenType =
    ILLEGAL | EOF | IDENTIFER | INT_tok | STRING_tok
  | PLUS | ASSIGN | MINUS | BANG | ASTERISK | SLASH | LT | GT | EQ | NEQ
  | COMMA | SEMICOLON | COLON | LPAREN | RPAREN | LBRACKET | RBRACKET | LBRACE | RBRACE
  | FUNCTION | LET | TRUE_tok | FALSE_tok | IF | ELSE | RETURN

record Token =
  Type_tok :: TokenType
  Literal :: string

text \<open>
  Modelled from the spec: the lexer (lexer.go is not among the sources). Section 4.1:
  \<open>next_token\<close> returns the next token and emits the sentinel \<open>EOF\<close> at end of input
  indefinitely. The lexer is the list of the tokens of the input that are still to
  come, without the final \<open>EOF\<close>.
\<close>

type_synonym Lexer = "Token list"

definition NextToken :: "Lexer \<Rightarrow> Token \<times> Lexer" where
  "NextToken lx =
     (case lx of
        [] \<Rightarrow> (\<lparr>Type_tok = EOF, Literal = []\<rparr>, [])
      | tok # rest \<Rightarrow> (tok, rest))"

section \<open>The parser's control flow (package parser)\<close>

text \<open>
  The state of the parser that its control flow reads: the lexer and the two tokens of
  lookahead. The syntax tree under construction and the list of error messages are
  only written by the parser, no branch depends on them, and they are left out: a
  parse function is its effect on this state.
\<close>

record Parser =
  lexer :: Lexer
  currT :: Token
  peekT :: Token

definition LOWEST :: nat where "LOWEST = 1"
definition EQUALS :: nat where "EQUALS = 2"
definition LESSGREATER :: nat where "LESSGREATER = 3"
definition SUM_prec :: nat where "SUM_prec = 4"
definition PRODUCT :: nat where "PRODUCT = 5"
definition PREFIX :: nat where "PREFIX = 6"
definition CALL :: nat where "CALL = 7"
definition INDEX :: nat where "INDEX = 8"

fun precedences :: "TokenType \<Rightarrow> nat option" where
  "precedences EQ = Some EQUALS"
| "precedences NEQ = Some EQUALS"
| "precedences LT = Some LESSGREATER"
| "precedences GT = Some LESSGREATER"
| "precedences PLUS = Some SUM_prec"
| "precedences MINUS = Some SUM_prec"
| "precedences ASTERISK = Some PRODUCT"
| "precedences SLASH = Some PRODUCT"
| "precedences LPAREN = Some CALL"
| "precedences LBRACKET = Some INDEX"
| "precedences t = None"

datatype prefixParseFn =
    parseIdentifier | parseIntegerLiteral | parsePrefixExpression | parseBoolean
  | parseGroupedExpression | parseIfExpression | parseFunctionLiteral | parseStringLiteral
  | parseArrayLiteral | parseHashLiteral

datatype infixParseFn = parseInfixExpression | parseCallExpression | parseIndexExpression

fun prefixParseFns :: "TokenType \<Rightarrow> prefixParseFn option" where
  "prefixParseFns IDENTIFER = Some parseIdentifier"
| "prefixParseFns INT_tok = Some parseIntegerLiteral"
| "prefixParseFns BANG = Some parsePrefixExpression"
| "prefixParseFns MINUS = Some parsePrefixExpression"
| "prefixParseFns TRUE_tok = Some parseBoolean"
| "prefixParseFns FALSE_tok = Some parseBoolean"
| "prefixParseFns LPAREN = Some parseGroupedExpression"
| "prefixParseFns IF = Some parseIfExpression"
| "prefixParseFns FUNCTION = Some parseFunctionLiteral"
| "prefixParseFns STRING_tok = Some parseStringLiteral"
| "prefixParseFns LBRACKET = Some parseArrayLiteral"
| "prefixParseFns LBRACE = Some parseHashLiteral"
| "prefixParseFns t = None"

fun infixParseFns :: "TokenType \<Rightarrow> infixParseFn option" where
  "infixParseFns PLUS = Some parseInfixExpression"
| "infixParseFns MINUS = Some parseInfixExpression"
| "infixParseFns ASTERISK = Some parseInfixExpression"
| "infixParseFns SLASH = Some parseInfixExpression"
| "infixParseFns EQ = Some parseInfixExpression"
| "infixParseFns NEQ = Some parseInfixExpression"
| "infixParseFns LT = Some parseInfixExpression"
| "infixParseFns GT = Some parseInfixExpression"
| "infixParseFns LPAREN = Some parseCallExpression"
| "infixParseFns LBRACKET = Some parseIndexExpression"
| "infixParseFns t = None"

definition nextToken :: "Parser \<Rightarrow> Parser" where
  "nextToken p =
     (case NextToken (lexer p) of
        (tok, lx) \<Rightarrow> \<lparr>lexer = lx, currT = peekT p, peekT = tok\<rparr>)"

text \<open>\<open>New\<close> reads two tokens, which sets \<open>currT\<close> and \<open>peekT\<close>.\<close>

definition New :: "Lexer \<Rightarrow> Parser" where
  "New lx =
     (case NextToken lx of
        (t1, lx1) \<Rightarrow>
          (case NextToken lx1 of
             (t2, lx2) \<Rightarrow> \<lparr>lexer = lx2, currT = t1, peekT = t2\<rparr>))"

definition currTIs :: "TokenType \<Rightarrow> Parser \<Rightarrow> bool" where
  "currTIs t p = (Type_tok (currT p) = t)"

definition peekTokenIs :: "TokenType \<Rightarrow> Parser \<Rightarrow> bool" where
  "peekTokenIs t p = (Type_tok (peekT p) = t)"

definition expectPeek :: "TokenType \<Rightarrow> Parser \<Rightarrow> bool \<times> Parser" where
  "expectPeek t p = (if peekTokenIs t p then (True, nextToken p) else (False, p))"

definition peekPrecendence :: "Parser \<Rightarrow> nat" where
  "peekPrecendence p =
     (case precedences (Type_tok (peekT p)) of Some q \<Rightarrow> q | None \<Rightarrow> LOWEST)"

definition currPrecendence :: "Parser \<Rightarrow> nat" where
  "currPrecendence p =
     (case precedences (Type_tok (currT p)) of Some q \<Rightarrow> q | None \<Rightarrow> LOWEST)"

text \<open>
  The parse functions call \<open>parseExpression\<close> and each other. As in \<open>Eval\<close>, each
  takes the \<open>parseExpression\<close> it calls as its argument \<open>pe\<close>, and every loop is
  bounded by the fuel \<open>k\<close>; \<open>n\<close> is the fuel the loops of the functions called start
  with. A loop that runs out of fuel is \<open>Timeout\<close>.
\<close>

type_synonym exprParser = "nat \<Rightarrow> Parser \<Rightarrow> Parser res"

text \<open>The loop \<open>for !p.currTIs(token.SEMICOLON) { p.nextToken() }\<close> of let and return.\<close>

fun skipToSemicolon :: "nat \<Rightarrow> Parser \<Rightarrow> Parser res" where
  "skipToSemicolon 0 p = Timeout"
| "skipToSemicolon (Suc k) p =
     (if \<not> currTIs SEMICOLON p then skipToSemicolon k (nextToken p) else Ok p)"

definition parseLetStatement :: "nat \<Rightarrow> exprParser \<Rightarrow> Parser \<Rightarrow> Parser res" where
  "parseLetStatement n pe p =
     (case expectPeek IDENTIFER p of
        (False, p1) \<Rightarrow> Ok p1
      | (True, p1) \<Rightarrow>
          (case expectPeek ASSIGN p1 of
             (False, p2) \<Rightarrow> Ok p2
           | (True, p2) \<Rightarrow> andThen (pe LOWEST (nextToken p2)) (skipToSemicolon n)))"

definition parseReturnStatement :: "nat \<Rightarrow> exprParser \<Rightarrow> Parser \<Rightarrow> Parser res" where
  "parseReturnStatement n pe p = andThen (pe LOWEST (nextToken p)) (skipToSemicolon n)"

definition parseExpressionStatment :: "exprParser \<Rightarrow> Parser \<Rightarrow> Parser res" where
  "parseExpressionStatment pe p =
     andThen (pe LOWEST p) (\<lambda>p1.
       if peekTokenIs SEMICOLON p1 then Ok (nextToken p1) else Ok p1)"

definition parseStatment :: "nat \<Rightarrow> exprParser \<Rightarrow> Parser \<Rightarrow> Parser res" where
  "parseStatment n pe p =
     (if Type_tok (currT p) = LET then parseLetStatement n pe p
      else if Type_tok (currT p) = RETURN then parseReturnStatement n pe p
      else parseExpressionStatment pe p)"

fun parseBlockStatement_loop :: "nat \<Rightarrow> nat \<Rightarrow> exprParser \<Rightarrow> Parser \<Rightarrow> Parser res" where
  "parseBlockStatement_loop 0 n pe p = Timeout"
| "parseBlockStatement_loop (Suc k) n pe p =
     (if \<not> currTIs RBRACE p \<and> \<not> currTIs EOF p then
        andThen (parseStatment n pe p) (\<lambda>p1. parseBlockStatement_loop k n pe (nextToken p1))
      else Ok p)"

definition parseBlockStatement :: "nat \<Rightarrow> exprParser \<Rightarrow> Parser \<Rightarrow> Parser res" where
  "parseBlockStatement n pe p = parseBlockStatement_loop n n pe (nextToken p)"

definition parseIfExpression_fn :: "nat \<Rightarrow> exprParser \<Rightarrow> Parser \<Rightarrow> Parser res" where
  "parseIfExpression_fn n pe p =
     (case expectPeek LPAREN p of
        (False, p1) \<Rightarrow> Ok p1
      | (True, p1) \<Rightarrow>
          andThen (pe LOWEST (nextToken p1)) (\<lambda>p2.
            case expectPeek RPAREN p2 of
              (False, p3) \<Rightarrow> Ok p3
            | (True, p3) \<Rightarrow>
                (case expectPeek LBRACE p3 of
                   (False, p4) \<Rightarrow> Ok p4
                 | (True, p4) \<Rightarrow>
                     andThen (parseBlockStatement n pe p4) (\<lambda>p5.
                       if peekTokenIs ELSE p5 then
                         (case expectPeek LBRACE (nextToken p5) of
                            (False, p6) \<Rightarrow> Ok p6
                          | (True, p6) \<Rightarrow> parseBlockStatement n pe p6)
                       else Ok p5))))"

fun parseFunctionParams_loop :: "nat \<Rightarrow> Parser \<Rightarrow> Parser res" where
  "parseFunctionParams_loop 0 p = Timeout"
| "parseFunctionParams_loop (Suc k) p =
     (if peekTokenIs COMMA p then parseFunctionParams_loop k (nextToken (nextToken p))
      else Ok p)"

definition parseFunctionParams :: "nat \<Rightarrow> Parser \<Rightarrow> Parser res" where
  "parseFunctionParams n p =
     (if peekTokenIs RPAREN p then Ok (nextToken p)
      else andThen (parseFunctionParams_loop n (nextToken p))
             (\<lambda>p1. Ok (snd (expectPeek RPAREN p1))))"

definition parseFunctionLiteral_fn :: "nat \<Rightarrow> exprParser \<Rightarrow> Parser \<Rightarrow> Parser res" where
  "parseFunctionLiteral_fn n pe p =
     (case expectPeek LPAREN p of
        (False, p1) \<Rightarrow> Ok p1
      | (True, p1) \<Rightarrow>
          andThen (parseFunctionParams n p1) (\<lambda>p2.
            case expectPeek LBRACE p2 of
              (False, p3) \<Rightarrow> Ok p3
            | (True, p3) \<Rightarrow> parseBlockStatement n pe p3))"

fun parseExpressionList_loop :: "nat \<Rightarrow> exprParser \<Rightarrow> Parser \<Rightarrow> Parser res" where
  "parseExpressionList_loop 0 pe p = Timeout"
| "parseExpressionList_loop (Suc k) pe p =
     (if peekTokenIs COMMA p then
        andThen (pe LOWEST (nextToken (nextToken p))) (parseExpressionList_loop k pe)
      else Ok p)"

definition parseExpressionList ::
  "nat \<Rightarrow> exprParser \<Rightarrow> TokenType \<Rightarrow> Parser \<Rightarrow> Parser res" where
  "parseExpressionList n pe end' p =
     (if peekTokenIs end' p then Ok (nextToken p)
      else
        andThen (pe LOWEST (nextToken p)) (\<lambda>p1.
          andThen (parseExpressionList_loop n pe p1) (\<lambda>p2. Ok (snd (expectPeek end' p2)))))"

fun parseHashLiteral_loop :: "nat \<Rightarrow> exprParser \<Rightarrow> Parser \<Rightarrow> (bool \<times> Parser) res" where
  "parseHashLiteral_loop 0 pe p = Timeout"
| "parseHashLiteral_loop (Suc k) pe p =
     (if \<not> peekTokenIs RBRACE p then
        andThen (pe LOWEST (nextToken p)) (\<lambda>p1.
          case expectPeek COLON p1 of
            (False, p2) \<Rightarrow> Ok (False, p2)
          | (True, p2) \<Rightarrow>
              andThen (pe LOWEST (nextToken p2)) (\<lambda>p3.
                if \<not> peekTokenIs RBRACE p3 then
                  (case expectPeek COMMA p3 of
                     (False, p4) \<Rightarrow> Ok (False, p4)
                   | (True, p4) \<Rightarrow> parseHashLiteral_loop k pe p4)
                else parseHashLiteral_loop k pe p3))
      else Ok (True, p))"

text \<open>
  The flag the loop returns is false where the source returns nil from inside the loop.
\<close>

definition parseHashLiteral_fn :: "nat \<Rightarrow> exprParser \<Rightarrow> Parser \<Rightarrow> Parser res" where
  "parseHashLiteral_fn n pe p =
     andThen (parseHashLiteral_loop n pe p) (\<lambda>(finished, p1).
       if finished then Ok (snd (expectPeek RBRACE p1)) else Ok p1)"

fun runPrefix :: "prefixParseFn \<Rightarrow> nat \<Rightarrow> exprParser \<Rightarrow> Parser \<Rightarrow> Parser res" where
  "runPrefix parseIdentifier n pe p = Ok p"
| "runPrefix parseIntegerLiteral n pe p = Ok p"
| "runPrefix parseBoolean n pe p = Ok p"
| "runPrefix parseStringLiteral n pe p = Ok p"
| "runPrefix parsePrefixExpression n pe p = pe PREFIX (nextToken p)"
| "runPrefix parseGroupedExpression n pe p =
     andThen (pe LOWEST (nextToken p)) (\<lambda>p1. Ok (snd (expectPeek RPAREN p1)))"
| "runPrefix parseIfExpression n pe p = parseIfExpression_fn n pe p"
| "runPrefix parseFunctionLiteral n pe p = parseFunctionLiteral_fn n pe p"
| "runPrefix parseArrayLiteral n pe p = parseExpressionList n pe RBRACKET p"
| "runPrefix parseHashLiteral n pe p = parseHashLiteral_fn n pe p"

fun runInfix :: "infixParseFn \<Rightarrow> nat \<Rightarrow> exprParser \<Rightarrow> Parser \<Rightarrow> Parser res" where
  "runInfix parseInfixExpression n pe p = pe (currPrecendence p) (nextToken p)"
| "runInfix parseCallExpression n pe p = parseExpressionList n pe RPAREN p"
| "runInfix parseIndexExpression n pe p =
     andThen (pe LOWEST (nextToken p)) (\<lambda>p1. Ok (snd (expectPeek RBRACKET p1)))"

fun parseExpression_loop ::
  "nat \<Rightarrow> nat \<Rightarrow> exprParser \<Rightarrow> nat \<Rightarrow> Parser \<Rightarrow> Parser res" where
  "parseExpression_loop 0 n pe precedence p = Timeout"
| "parseExpression_loop (Suc k) n pe precedence p =
     (if \<not> peekTokenIs SEMICOLON p \<and> precedence < peekPrecendence p then
        (case infixParseFns (Type_tok (peekT p)) of
           None \<Rightarrow> Ok p
         | Some infix \<Rightarrow>
             andThen (runInfix infix n pe (nextToken p)) (parseExpression_loop k n pe precedence))
      else Ok p)"

definition parseExpression_body :: "nat \<Rightarrow> exprParser \<Rightarrow> exprParser" where
  "parseExpression_body n pe precedence p =
     (case prefixParseFns (Type_tok (currT p)) of
        None \<Rightarrow> Ok p
      | Some prefix \<Rightarrow>
          andThen (runPrefix prefix n pe p) (parseExpression_loop n n pe precedence))"

fun parseExpression :: "nat \<Rightarrow> exprParser" where
  "parseExpression 0 = (\<lambda>precedence p. Timeout)"
| "parseExpression (Suc n) = parseExpression_body n (parseExpression n)"

fun ParseProgram_loop :: "nat \<Rightarrow> nat \<Rightarrow> exprParser \<Rightarrow> Parser \<Rightarrow> Parser res" where
  "ParseProgram_loop 0 n pe p = Timeout"
| "ParseProgram_loop (Suc k) n pe p =
     (if Type_tok (currT p) \<noteq> EOF then
        andThen (parseStatment n pe p) (\<lambda>p1. ParseProgram_loop k n pe (nextToken p1))
      else Ok p)"

definition ParseProgram :: "nat \<Rightarrow> Parser \<Rightarrow> Parser res" where
  "ParseProgram n p = ParseProgram_loop n n (parseExpression n) p"

section \<open>A return statement nested in blocks\<close>

text \<open>
  \<open>nestedReturn h env n st s l v s'\<close>: the statement \<open>st\<close>, evaluated with fuel \<open>n\<close> in
  the state \<open>s\<close>, reaches a return statement through any number of enclosing blocks,
  and the return statement makes the object \<open>ReturnValue l v\<close> and leaves the state
  \<open>s'\<close>. Either \<open>st\<close> is the return statement itself, whose expression evaluates to
  \<open>v\<close>, no error; or \<open>st\<close> is an if expression whose condition selects a block
  (consequence or alternative) in which the statements \<open>pre\<close> run to their end without
  a ReturnValue or an Error, and the next statement reaches the return statement.
\<close>

inductive nestedReturn ::
  "host \<Rightarrow> loc \<Rightarrow> nat \<Rightarrow> stmt \<Rightarrow> state \<Rightarrow> loc \<Rightarrow> object \<Rightarrow> state \<Rightarrow> bool"
  for h :: host and env :: loc where
  return:
    "Eval h n (Expression e) env s = Ok (v, s1) \<Longrightarrow> \<not> isError v \<Longrightarrow>
     nestedReturn h env (Suc n) (ReturnStatement e) s (nxt s1) v (alloc s1)"
| consequence:
    "Eval h (Suc n) (Expression c) env s = Ok (condition, s1) \<Longrightarrow>
     \<not> isError condition \<Longrightarrow> isTruthy condition \<Longrightarrow>
     evalBlockStatement (Eval h n) NilObject pre env s1 = Ok (r, s2) \<Longrightarrow>
     r = NilObject \<or> (Type r \<noteq> Some RETURN_VALUE_OBJ \<and> Type r \<noteq> Some ERROR_OBJ) \<Longrightarrow>
     nestedReturn h env n st s2 l v s3 \<Longrightarrow>
     nestedReturn h env (Suc (Suc (Suc n)))
       (ExpressionStatement (IfExpression c (BlockStatement (pre @ st # post)) alt)) s l v s3"
| alternative:
    "Eval h (Suc n) (Expression c) env s = Ok (condition, s1) \<Longrightarrow>
     \<not> isError condition \<Longrightarrow> \<not> isTruthy condition \<Longrightarrow>
     evalBlockStatement (Eval h n) NilObject pre env s1 = Ok (r, s2) \<Longrightarrow>
     r = NilObject \<or> (Type r \<noteq> Some RETURN_VALUE_OBJ \<and> Type r \<noteq> Some ERROR_OBJ) \<Longrightarrow>
     nestedReturn h env n st s2 l v s3 \<Longrightarrow>
     nestedReturn h env (Suc (Suc (Suc n)))
       (ExpressionStatement (IfExpression c cons (Some (BlockStatement (pre @ st # post))))) s l v s3"

section \<open>Programs and states used as examples\<close>

text \<open>
  A host whose \<open>range\<close> visits the pairs of a hash literal in source order, and one
  whose \<open>range\<close> visits them in reverse. The state a driver starts from: the global
  environment, made by \<open>NewEnvironment\<close>, at address 0.
\<close>

definition sourceOrderHost :: host where
  "sourceOrderHost = \<lparr>strHash = (\<lambda>v. of_nat (length v)), rangeOrder = (\<lambda>ps. ps)\<rparr>"

definition reverseOrderHost :: host where
  "reverseOrderHost = \<lparr>strHash = (\<lambda>v. of_nat (length v)), rangeOrder = rev\<rparr>"

definition emptyState :: state where
  "emptyState = \<lparr>envs = Map.empty, arrays = Map.empty, nxt = 0, stdout = []\<rparr>"

definition initialState :: state where
  "initialState = snd (NewEnvironment emptyState)"

text \<open>A state holding the array \<open>[1, 2, 3]\<close> at address 4.\<close>

definition arrayState :: state where
  "arrayState =
     \<lparr>envs = Map.empty,
      arrays = [4 \<mapsto> [Integer 1 1, Integer 2 2, Integer 3 3]],
      nxt = 5, stdout = []\<rparr>"

text \<open>\<open>fn(x) { x }()\<close>\<close>

definition undersupplyProgram :: node where
  "undersupplyProgram =
     Program [ExpressionStatement
       (CallExpression
          (FunctionLiteral [''x''] (BlockStatement [ExpressionStatement (Identifier ''x'')]))
          [])]"

text \<open>\<open>if (10 > 1) { if (10 > 1) { return 10; } return 1; }\<close>\<close>

definition greaterCondition :: expr where
  "greaterCondition = InfixExpression ''>'' (IntegerLiteral 10) (IntegerLiteral 1)"

definition innerIfStatement :: stmt where
  "innerIfStatement =
     ExpressionStatement
       (IfExpression greaterCondition (BlockStatement [ReturnStatement (IntegerLiteral 10)]) None)"

definition nestedReturnStatement :: stmt where
  "nestedReturnStatement =
     ExpressionStatement
       (IfExpression greaterCondition
          (BlockStatement [innerIfStatement, ReturnStatement (IntegerLiteral 1)]) None)"

text \<open>\<open>puts(v)\<close>\<close>

definition putsCall :: "int64 \<Rightarrow> expr" where
  "putsCall v = CallExpression (Identifier ''puts'') [IntegerLiteral v]"

text \<open>\<open>{"a": 1, "a": 2}["a"]\<close>\<close>

definition duplicateKeyProgram :: node where
  "duplicateKeyProgram =
     Program [ExpressionStatement
       (IndexExpression
          (HashLiteral [(StringLiteral ''a'', IntegerLiteral 1),
                        (StringLiteral ''a'', IntegerLiteral 2)])
          (StringLiteral ''a''))]"

text \<open>The tokens of \<open>let x = 5\<close>, of \<open>return 5\<close> and of \<open>let x = 5;\<close>\<close>

definition letTokens :: Lexer where
  "letTokens =
     [\<lparr>Type_tok = LET, Literal = ''let''\<rparr>, \<lparr>Type_tok = IDENTIFER, Literal = ''x''\<rparr>,
      \<lparr>Type_tok = ASSIGN, Literal = ''=''\<rparr>, \<lparr>Type_tok = INT_tok, Literal = ''5''\<rparr>]"

definition returnTokens :: Lexer where
  "returnTokens =
     [\<lparr>Type_tok = RETURN, Literal = ''return''\<rparr>, \<lparr>Type_tok = INT_tok, Literal = ''5''\<rparr>]"

definition letSemicolonTokens :: Lexer where
  "letSemicolonTokens = letTokens @ [\<lparr>Type_tok = SEMICOLON, Literal = '';''\<rparr>]"

text \<open>\<open>let x = if (true) { return 1; }; 2;\<close> and, as the body of a function that is called,
  \<open>fn() { let x = if (true) { return 1; }; 2; }()\<close>\<close>

definition swallowedReturn :: "stmt list" where
  "swallowedReturn =
     [LetStatement ''x''
        (IfExpression (Boolean_expr True)
           (BlockStatement [ReturnStatement (IntegerLiteral 1)]) None),
      ExpressionStatement (IntegerLiteral 2)]"

definition swallowedReturnCall :: node where
  "swallowedReturnCall =
     Program [ExpressionStatement
       (CallExpression (FunctionLiteral [] (BlockStatement swallowedReturn)) [])]"

text \<open>\<open>1 / 0\<close>\<close>

definition divByZeroProgram :: node where
  "divByZeroProgram =
     Program [ExpressionStatement (InfixExpression ''/'' (IntegerLiteral 1) (IntegerLiteral 0))]"

section \<open>Infix expressions on strings and on operands of different types\<close>

lemma ptrEq_String [simp]: "ptrEq (String ll a) (String lr b) = (ll = lr)"
  by (simp add: ptrEq_def)

lemma ptrEq_Type_neq: "Type left \<noteq> Type right \<Longrightarrow> \<not> ptrEq left right"
  by (simp add: ptrEq_def)

text \<open>
  C1, as the claim states it, fails: \<open>"a" == "a"\<close> on two string objects reaches the
  case \<open>op == "=="\<close> of the switch before the string case, and yields \<open>FALSE\<close> (the two
  literals are different objects), not the error \<open>unknown operator: STRING == STRING\<close>.
\<close>

theorem string_eq_is_not_an_error:
  "evalInfixExpression 3 ''=='' (String 1 ''a'') (String 2 ''a'') = Ok FALSE
   \<and> evalInfixExpression 3 ''=='' (String 1 ''a'') (String 2 ''a'')
       \<noteq> Ok (Error 3 ''unknown operator: STRING == STRING'')"
  by (simp add: evalInfixExpression_def nativeBoolToBooleanObject_def)

text \<open>
  C1, amended: for every two String values, \<open>+\<close> yields the new concatenated string;
  \<open>==\<close> and \<open>!=\<close> yield \<open>TRUE\<close> or \<open>FALSE\<close> by comparing the identity of the two
  string objects; every other operator yields the Error value with message
  \<open>unknown operator: STRING <op> STRING\<close>.
\<close>

theorem string_infix:
  "evalInfixExpression l op (String ll leftVal) (String lr rightVal) =
     (if op = ''=='' then Ok (if ll = lr then TRUE else FALSE)
      else if op = ''!='' then Ok (if ll = lr then FALSE else TRUE)
      else if op = ''+'' then Ok (String l (leftVal @ rightVal))
      else Ok (Error l (''unknown operator: STRING '' @ op @ '' STRING'')))"
  by (simp add: evalInfixExpression_def nativeBoolToBooleanObject_def newError_def)

text \<open>
  C2, as the claim states it, fails: \<open>5 == true\<close> reaches the case \<open>op == "=="\<close> before
  the type-mismatch case and yields \<open>FALSE\<close>, not
  \<open>type mismatch: INTEGER == BOOLEAN\<close>.
\<close>

theorem int_eq_bool_is_not_an_error:
  "evalInfixExpression 3 ''=='' (Integer 1 5) TRUE = Ok FALSE
   \<and> evalInfixExpression 3 ''=='' (Integer 1 5) TRUE
       \<noteq> Ok (Error 3 ''type mismatch: INTEGER == BOOLEAN'')"
  by (simp add: evalInfixExpression_def nativeBoolToBooleanObject_def ptrEq_def)

text \<open>
  C2, amended: for every pair of operand values whose type tags differ, every infix
  operator other than \<open>==\<close> and \<open>!=\<close> yields the Error value
  \<open>type mismatch: <L> <op> <R>\<close>; \<open>==\<close> yields \<open>FALSE\<close> and \<open>!=\<close> yields \<open>TRUE\<close>.
\<close>

theorem different_types_infix:
  assumes "Type left = Some lt" and "Type right = Some rt" and "lt \<noteq> rt"
  shows "evalInfixExpression l op left right =
     (if op = ''=='' then Ok FALSE
      else if op = ''!='' then Ok TRUE
      else Ok (Error l (''type mismatch: '' @ typeName lt @ '' '' @ op @ '' '' @ typeName rt)))"
proof -
  from assms have neq: "\<not> ptrEq left right"
    by (intro ptrEq_Type_neq) simp
  from assms have "\<not> (lt = INTEGER_OBJ \<and> rt = INTEGER_OBJ)"
    and "\<not> (lt = STRING_OBJ \<and> rt = STRING_OBJ)"
    by auto
  with assms neq show ?thesis
    by (auto simp add: evalInfixExpression_def nativeBoolToBooleanObject_def newError_def)
qed

theorem different_types_infix_witness:
  "evalInfixExpression 3 ''+'' (Integer 1 5) TRUE
     = Ok (Error 3 ''type mismatch: INTEGER + BOOLEAN'')
   \<and> evalInfixExpression 3 ''!='' (String 1 ''a'') Null = Ok TRUE"
  using different_types_infix [of "Integer 1 5" INTEGER_OBJ TRUE BOOLEAN_OBJ 3 "''+''"]
    different_types_infix [of "String 1 ''a''" STRING_OBJ Null NULL_OBJ 3 "''!=''"]
  by simp

section \<open>Integer division\<close>

lemma andThen_simps [simp]:
  "andThen (Ok x) f = f x"
  "andThen (Panic p) f = Panic p"
  "andThen Timeout f = Timeout"
  by (simp_all add: andThen_def)

lemma isError_simps [simp]:
  "isError (Error l m)"
  "\<not> isError NilObject"
  "\<not> isError (Integer l v)"
  "\<not> isError (Boolean b)"
  "\<not> isError Null"
  "\<not> isError (String l x)"
  "\<not> isError (ReturnValue l obj)"
  "\<not> isError (Function l ps body e)"
  "\<not> isError (BuiltIn f)"
  "\<not> isError (Array l)"
  "\<not> isError (Hash l hs)"
  by (simp_all add: isError_def)

text \<open>
  C4, as the claim states it, fails: \<open>1 / 0\<close> makes Go's integer division panic; no
  Error value is returned.
\<close>

theorem division_by_zero_panics:
  "evalIntegerInfixExpression 3 ''/'' (Integer 1 1) (Integer 2 0) = Panic divideByZero
   \<and> evalIntegerInfixExpression 3 ''/'' (Integer 1 1) (Integer 2 0)
       \<noteq> Ok (Error 3 ''division by zero'')"
  by simp

text \<open>
  C4, amended: integer infix evaluation returns a value of the evaluator (an Integer, a
  Boolean, or the Error \<open>unknown operator\<close>) for every operator and all operands, except
  for \<open>/\<close> with right operand 0: there Go's division panics and the panic escapes
  \<open>Eval\<close>, whatever the host, the environment and the state, as soon as the fuel
  reaches the division.
\<close>

theorem integer_infix_panics_iff:
  "(evalIntegerInfixExpression l op (Integer ll leftVal) (Integer lr rightVal) = Panic p)
     = (op = ''/'' \<and> rightVal = 0 \<and> p = divideByZero)
   \<and> evalIntegerInfixExpression l op (Integer ll leftVal) (Integer lr rightVal) \<noteq> Timeout
   \<and> Eval h (Suc (Suc (Suc (Suc n)))) divByZeroProgram env s = Panic divideByZero"
  by (auto simp add: divByZeroProgram_def evalInfixExpression_def)


section \<open>The builtin push\<close>

lemma push_new_elements: "(copy (make_slice (Suc (length els))) els)[length els := v] = els @ [v]"
proof -
  have "drop (length els) (replicate (Suc (length els)) NilObject) = [NilObject]"
    by (simp only: drop_replicate) simp
  then have "copy (make_slice (Suc (length els))) els = els @ [NilObject]"
    by (simp add: copy_def make_slice_def del: replicate.simps)
  then show ?thesis by simp
qed

lemma zip_take_length: "zip xs (take (length xs) ys) = zip xs ys"
proof (induction xs arbitrary: ys)
  case Nil
  then show ?case by simp
next
  case (Cons x xs)
  then show ?case by (cases ys) simp_all
qed

text \<open>
  C9: for every Array value \<open>a\<close> (an array object whose elements are in the store) and
  every value \<open>v\<close>, the builtin \<open>push(a, v)\<close> returns a new Array, at an address not
  in use before, whose elements are exactly the elements of \<open>a\<close> in order followed by
  \<open>v\<close>; the store changes at the new address only, so the elements of \<open>a\<close>, and of
  every other array, are unchanged by the call.
\<close>

theorem push_appends_and_preserves:
  assumes "arrays s la = Some els" and "arrays s (nxt s) = None"
  shows "pushFunc s [Array la, v]
           = Ok (Array (nxt s),
                 s\<lparr>arrays := (arrays s)(nxt s \<mapsto> els @ [v]), nxt := Suc (nxt s)\<rparr>)
         \<and> ((arrays s)(nxt s \<mapsto> els @ [v])) la = Some els
         \<and> la \<noteq> nxt s
         \<and> builtins ''push'' = Some PushFunc
         \<and> applyFunction ev (BuiltIn PushFunc) [Array la, v] s = pushFunc s [Array la, v]"
proof -
  from assms have "la \<noteq> nxt s" by auto
  with assms show ?thesis
    by (simp add: pushFunc_def arrayArg_def Let_def push_new_elements builtins_def)
qed

theorem push_appends_and_preserves_witness:
  "arrays arrayState 4 = Some [Integer 1 1, Integer 2 2, Integer 3 3]
   \<and> arrays arrayState (nxt arrayState) = None
   \<and> pushFunc arrayState [Array 4, Integer 9 4]
       = Ok (Array 5,
             arrayState\<lparr>arrays := (arrays arrayState)
                          (5 \<mapsto> [Integer 1 1, Integer 2 2, Integer 3 3, Integer 9 4]),
                        nxt := 6\<rparr>)"
proof -
  have a: "arrays arrayState 4 = Some [Integer 1 1, Integer 2 2, Integer 3 3]"
    and f: "arrays arrayState (nxt arrayState) = None"
    and n: "nxt arrayState = 5"
    by (simp_all add: arrayState_def)
  from push_appends_and_preserves [OF a f, of "Integer 9 4"] a f n show ?thesis
    by simp
qed

section \<open>Function calls and the number of arguments\<close>

lemma extendFunctionEnv_loop_enough:
  "envs s env = Some E \<Longrightarrow> idx + length params \<le> length args \<Longrightarrow>
   extendFunctionEnv_loop env idx params args s
     = Ok (s\<lparr>envs := (envs s)(env \<mapsto>
              E\<lparr>store := store E ++ map_of (rev (zip params (drop idx args)))\<rparr>)\<rparr>)"
proof (induction params arbitrary: idx s E)
  case Nil
  then show ?case by (simp add: fun_upd_idem)
next
  case (Cons p ps)
  let ?E1 = "E\<lparr>store := (store E)(p \<mapsto> args ! idx)\<rparr>"
  let ?s1 = "s\<lparr>envs := (envs s)(env \<mapsto> ?E1)\<rparr>"
  let ?m = "map_of (rev (zip ps (drop (Suc idx) args)))"
  from Cons.prems have lt: "idx < length args" by simp
  then have d: "drop idx args = args ! idx # drop (Suc idx) args"
    by (simp add: Cons_nth_drop_Suc)
  have set: "Env_Set env p (args ! idx) s = Ok ?s1"
    using Cons.prems by (simp add: Env_Set_def)
  have "envs ?s1 env = Some ?E1" by simp
  moreover from Cons.prems have "Suc idx + length ps \<le> length args" by simp
  ultimately have ih: "extendFunctionEnv_loop env (Suc idx) ps args ?s1
      = Ok (?s1\<lparr>envs := (envs ?s1)(env \<mapsto> ?E1\<lparr>store := store ?E1 ++ ?m\<rparr>)\<rparr>)"
    by (rule Cons.IH)
  have eq: "?s1\<lparr>envs := (envs ?s1)(env \<mapsto> ?E1\<lparr>store := store ?E1 ++ ?m\<rparr>)\<rparr>
      = s\<lparr>envs := (envs s)(env \<mapsto>
              E\<lparr>store := store E ++ map_of (rev (zip (p # ps) (drop idx args)))\<rparr>)\<rparr>"
    by (simp add: d)
  show ?case
    by (simp only: extendFunctionEnv_loop.simps lt if_True set andThen_simps ih eq)
qed

lemma extendFunctionEnv_loop_short:
  "envs s env = Some E \<Longrightarrow> idx \<le> length args \<Longrightarrow> length args < idx + length params \<Longrightarrow>
   extendFunctionEnv_loop env idx params args s = Panic indexOutOfRange"
proof (induction params arbitrary: idx s E)
  case Nil
  then show ?case by simp
next
  case (Cons p ps)
  show ?case
  proof (cases "idx < length args")
    case True
    let ?s1 = "s\<lparr>envs := (envs s)(env \<mapsto> E\<lparr>store := (store E)(p \<mapsto> args ! idx)\<rparr>)\<rparr>"
    have "extendFunctionEnv_loop env (Suc idx) ps args ?s1 = Panic indexOutOfRange"
      using Cons.prems True by (intro Cons.IH [where E = "E\<lparr>store := (store E)(p \<mapsto> args ! idx)\<rparr>"]) simp_all
    with True Cons.prems show ?thesis by (simp add: Env_Set_def)
  next
    case False
    then show ?thesis by simp
  qed
qed

lemma extendFunctionEnv_enough:
  "length params \<le> length args \<Longrightarrow>
   extendFunctionEnv params fenv args s
     = Ok (nxt s, s\<lparr>envs := (envs s)(nxt s \<mapsto>
             \<lparr>store = map_of (rev (zip params args)), outer = Some fenv\<rparr>),
                    nxt := Suc (nxt s)\<rparr>)"
  by (simp add: extendFunctionEnv_def NewClosedEnv_def
      extendFunctionEnv_loop_enough [where E = "\<lparr>store = Map.empty, outer = Some fenv\<rparr>"])

lemma extendFunctionEnv_short:
  "length args < length params \<Longrightarrow>
   extendFunctionEnv params fenv args s = Panic indexOutOfRange"
  by (simp add: extendFunctionEnv_def NewClosedEnv_def
      extendFunctionEnv_loop_short [where E = "\<lparr>store = Map.empty, outer = Some fenv\<rparr>"])

text \<open>
  C5, as the claim states it, fails for too few arguments: \<open>fn(x) { x }()\<close> panics
  with an index out of range in \<open>extendFunctionEnv\<close> (\<open>args[idx]\<close>), before the
  body is evaluated; no Error value is returned.
\<close>

theorem undersupply_panics:
  "Eval sourceOrderHost 5 undersupplyProgram 0 initialState = Panic indexOutOfRange"
  by (simp add: undersupplyProgram_def initialState_def emptyState_def NewEnvironment_def
      numeral_eq_Suc alloc_def extendFunctionEnv_def NewClosedEnv_def)

text \<open>
  C5, amended: calling a Function value with at least as many arguments as parameters
  binds each parameter to the argument at its position in a new environment enclosed
  by the function's (a parameter name that occurs twice keeps the later binding) and
  ignores the extra arguments: the call does what the call without them does.
  Calling it with fewer arguments than parameters panics with an index out of range
  while the parameters are bound, before the body is evaluated; no Error value is
  returned.
\<close>

theorem function_call_arity:
  "(length params \<le> length args \<longrightarrow>
      extendFunctionEnv params fenv args s
        = Ok (nxt s, s\<lparr>envs := (envs s)(nxt s \<mapsto>
                \<lparr>store = map_of (rev (zip params args)), outer = Some fenv\<rparr>),
                       nxt := Suc (nxt s)\<rparr>)
      \<and> applyFunction ev (Function l params body fenv) args s
        = applyFunction ev (Function l params body fenv) (take (length params) args) s)
   \<and> (length args < length params \<longrightarrow>
      extendFunctionEnv params fenv args s = Panic indexOutOfRange
      \<and> applyFunction ev (Function l params body fenv) args s = Panic indexOutOfRange)"
  by (simp add: extendFunctionEnv_enough extendFunctionEnv_short zip_take_length)


theorem function_call_arity_witness:
  "length [''x''] \<le> length [Integer 1 1, Integer 2 2]
   \<and> applyFunction (Eval sourceOrderHost 3)
         (Function 1 [''x''] (BlockStatement [ExpressionStatement (Identifier ''x'')]) 0)
         [Integer 1 1, Integer 2 2] initialState
       = applyFunction (Eval sourceOrderHost 3)
           (Function 1 [''x''] (BlockStatement [ExpressionStatement (Identifier ''x'')]) 0)
           [Integer 1 1] initialState
   \<and> length ([] :: object list) < length [''x'']
   \<and> applyFunction (Eval sourceOrderHost 3)
         (Function 1 [''x''] (BlockStatement [ExpressionStatement (Identifier ''x'')]) 0)
         [] initialState
       = Panic indexOutOfRange"
  using function_call_arity [of "[''x'']" "[Integer 1 1, Integer 2 2]" 0 initialState
      "Eval sourceOrderHost 3" 1 "BlockStatement [ExpressionStatement (Identifier ''x'')]"]
    function_call_arity [of "[''x'']" "[]" 0 initialState
      "Eval sourceOrderHost 3" 1 "BlockStatement [ExpressionStatement (Identifier ''x'')]"]
  by (simp del: applyFunction.simps Eval.simps)

lemmas example_defs =
  sourceOrderHost_def reverseOrderHost_def initialState_def emptyState_def
  NewEnvironment_def alloc_def

section \<open>Loops over statements and expressions\<close>

lemma evalBlockStatement_continue:
  "ev (Statement st) env s = Ok (r', s1) \<Longrightarrow>
   r' = NilObject \<or> (Type r' \<noteq> Some RETURN_VALUE_OBJ \<and> Type r' \<noteq> Some ERROR_OBJ) \<Longrightarrow>
   evalBlockStatement ev res (st # stmts) env s = evalBlockStatement ev r' stmts env s1"
  by auto

lemma evalBlockStatement_stop:
  "ev (Statement st) env s = Ok (r', s1) \<Longrightarrow>
   \<not> (r' = NilObject \<or> (Type r' \<noteq> Some RETURN_VALUE_OBJ \<and> Type r' \<noteq> Some ERROR_OBJ)) \<Longrightarrow>
   evalBlockStatement ev res (st # stmts) env s = Ok (r', s1)"
  by auto

lemma evalProgram_continue:
  "ev (Statement st) env s = Ok (r', s1) \<Longrightarrow>
   r' = NilObject \<or> (Type r' \<noteq> Some RETURN_VALUE_OBJ \<and> Type r' \<noteq> Some ERROR_OBJ) \<Longrightarrow>
   evalProgram ev res (st # stmts) env s = evalProgram ev r' stmts env s1"
  by (cases r') simp_all

lemma evalBlockStatement_Ok_Cons:
  assumes "evalBlockStatement ev res (st # stmts) env s = Ok (r, s')"
  obtains r' s1 where "ev (Statement st) env s = Ok (r', s1)"
proof (cases "ev (Statement st) env s")
  case (Ok x)
  then show ?thesis using that by (cases x) simp
next
  case (Panic p)
  with assms show ?thesis by simp
next
  case Timeout
  with assms show ?thesis by simp
qed

lemma evalBlockStatement_append:
  "evalBlockStatement ev res pre env s0 = Ok (r, s) \<Longrightarrow>
   r = NilObject \<or> (Type r \<noteq> Some RETURN_VALUE_OBJ \<and> Type r \<noteq> Some ERROR_OBJ) \<Longrightarrow>
   evalBlockStatement ev res (pre @ post) env s0 = evalBlockStatement ev r post env s"
proof (induction pre arbitrary: res s0)
  case Nil
  then show ?case by simp
next
  case (Cons st pre)
  from Cons.prems(1) obtain r' s1 where e: "ev (Statement st) env s0 = Ok (r', s1)"
    by (rule evalBlockStatement_Ok_Cons)
  show ?case
  proof (cases "r' = NilObject \<or> (Type r' \<noteq> Some RETURN_VALUE_OBJ \<and> Type r' \<noteq> Some ERROR_OBJ)")
    case True
    with e Cons.prems(1) have "evalBlockStatement ev r' pre env s1 = Ok (r, s)"
      by (simp only: evalBlockStatement_continue)
    then have "evalBlockStatement ev r' (pre @ post) env s1 = evalBlockStatement ev r post env s"
      using Cons.prems(2) by (rule Cons.IH)
    with e True show ?thesis
      by (simp only: append_Cons evalBlockStatement_continue)
  next
    case False
    from evalBlockStatement_stop [where ev = ev, OF e False] Cons.prems(1) have "r' = r"
      by simp
    with False Cons.prems(2) show ?thesis by simp
  qed
qed

lemma evalProgram_append:
  "evalBlockStatement ev res pre env s0 = Ok (r, s) \<Longrightarrow>
   r = NilObject \<or> (Type r \<noteq> Some RETURN_VALUE_OBJ \<and> Type r \<noteq> Some ERROR_OBJ) \<Longrightarrow>
   evalProgram ev res (pre @ post) env s0 = evalProgram ev r post env s"
proof (induction pre arbitrary: res s0)
  case Nil
  then show ?case by simp
next
  case (Cons st pre)
  from Cons.prems(1) obtain r' s1 where e: "ev (Statement st) env s0 = Ok (r', s1)"
    by (rule evalBlockStatement_Ok_Cons)
  show ?case
  proof (cases "r' = NilObject \<or> (Type r' \<noteq> Some RETURN_VALUE_OBJ \<and> Type r' \<noteq> Some ERROR_OBJ)")
    case True
    with e Cons.prems(1) have "evalBlockStatement ev r' pre env s1 = Ok (r, s)"
      by (simp only: evalBlockStatement_continue)
    then have "evalProgram ev r' (pre @ post) env s1 = evalProgram ev r post env s"
      using Cons.prems(2) by (rule Cons.IH)
    with e True show ?thesis
      by (simp only: append_Cons evalProgram_continue)
  next
    case False
    from evalBlockStatement_stop [where ev = ev, OF e False] Cons.prems(1) have "r' = r"
      by simp
    with False Cons.prems(2) show ?thesis by simp
  qed
qed

lemma evalExpressions_Ok_Cons:
  assumes "evalExpressions ev res (e # es) env s = Ok (vs, s')"
  obtains v s1 where "ev (Expression e) env s = Ok (v, s1)"
proof (cases "ev (Expression e) env s")
  case (Ok x)
  then show ?thesis using that by (cases x) simp
next
  case (Panic p)
  with assms show ?thesis by simp
next
  case Timeout
  with assms show ?thesis by simp
qed

lemma evalExpressions_append:
  "evalExpressions ev res pre env s = Ok (vs, s1) \<Longrightarrow>
   \<not> (length vs = 1 \<and> isError (vs ! 0)) \<Longrightarrow>
   evalExpressions ev res (pre @ post) env s = evalExpressions ev vs post env s1"
proof (induction pre arbitrary: res s)
  case Nil
  then show ?case by simp
next
  case (Cons e pre)
  from Cons.prems(1) obtain v s' where e: "ev (Expression e) env s = Ok (v, s')"
    by (rule evalExpressions_Ok_Cons)
  show ?case
  proof (cases "isError v")
    case True
    with e Cons.prems(1) have "vs = [v]" by simp
    with True Cons.prems(2) show ?thesis by simp
  next
    case False
    with e Cons.prems(1) have "evalExpressions ev (res @ [v]) pre env s' = Ok (vs, s1)"
      by simp
    then have "evalExpressions ev (res @ [v]) (pre @ post) env s'
        = evalExpressions ev vs post env s1"
      using Cons.prems(2) by (rule Cons.IH)
    with e False show ?thesis by simp
  qed
qed

lemma evalBlockStatement_reaches_return:
  assumes "evalBlockStatement ev res pre env s0 = Ok (r, s)"
    and "r = NilObject \<or> (Type r \<noteq> Some RETURN_VALUE_OBJ \<and> Type r \<noteq> Some ERROR_OBJ)"
    and "ev (Statement st) env s = Ok (ReturnValue l v, s')"
  shows "evalBlockStatement ev res (pre @ st # post) env s0 = Ok (ReturnValue l v, s')"
proof -
  have "evalBlockStatement ev res (pre @ st # post) env s0
      = evalBlockStatement ev r (st # post) env s"
    using assms(1,2) by (rule evalBlockStatement_append)
  with assms(3) show ?thesis by simp
qed

lemma evalProgram_reaches_return:
  assumes "evalBlockStatement ev res pre env s0 = Ok (r, s)"
    and "r = NilObject \<or> (Type r \<noteq> Some RETURN_VALUE_OBJ \<and> Type r \<noteq> Some ERROR_OBJ)"
    and "ev (Statement st) env s = Ok (ReturnValue l v, s')"
  shows "evalProgram ev res (pre @ st # post) env s0 = Ok (v, s')"
proof -
  have "evalProgram ev res (pre @ st # post) env s0 = evalProgram ev r (st # post) env s"
    using assms(1,2) by (rule evalProgram_append)
  with assms(3) show ?thesis by simp
qed

section \<open>Let statements\<close>

text \<open>
  C10: for every environment, evaluating a let statement whose value expression
  evaluates without error binds the name (in that environment, where \<open>Get\<close> finds it)
  and returns Go's nil, which is not the \<open>NULL\<close> singleton; so \<open>Eval\<close> of a block or
  of a Program whose last statement is such a let, and whose statements before it run
  to their end, returns nil.
\<close>

theorem let_statement_returns_nil:
  assumes "Eval h n (Expression e) env s = Ok (val, s1)"
    and "\<not> isError val"
    and "envs s1 env = Some E"
    and "evalBlockStatement (Eval h (Suc n)) NilObject pre env s0 = Ok (r, s)"
    and "r = NilObject \<or> (Type r \<noteq> Some RETURN_VALUE_OBJ \<and> Type r \<noteq> Some ERROR_OBJ)"
    and "s2 = s1\<lparr>envs := (envs s1)(env \<mapsto> E\<lparr>store := (store E)(name \<mapsto> val)\<rparr>)\<rparr>"
  shows "Eval h (Suc n) (Statement (LetStatement name e)) env s = Ok (NilObject, s2)
    \<and> Env_Get (Suc k) (envs s2) env name = Ok (Some val)
    \<and> NilObject \<noteq> NULL
    \<and> Eval h (Suc (Suc n)) (Block (BlockStatement (pre @ [LetStatement name e]))) env s0
        = Ok (NilObject, s2)
    \<and> Eval h (Suc (Suc n)) (Program (pre @ [LetStatement name e])) env s0
        = Ok (NilObject, s2)"
proof -
  have l: "Eval h (Suc n) (Statement (LetStatement name e)) env s = Ok (NilObject, s2)"
    using assms(1,2,3,6) by (simp add: Env_Set_def)
  have b: "evalBlockStatement (Eval h (Suc n)) NilObject (pre @ [LetStatement name e]) env s0
      = evalBlockStatement (Eval h (Suc n)) r [LetStatement name e] env s"
    using assms(4,5) by (rule evalBlockStatement_append)
  have p: "evalProgram (Eval h (Suc n)) NilObject (pre @ [LetStatement name e]) env s0
      = evalProgram (Eval h (Suc n)) r [LetStatement name e] env s"
    using assms(4,5) by (rule evalProgram_append)
  have g: "Env_Get (Suc k) (envs s2) env name = Ok (Some val)"
    unfolding assms(6) by simp
  have n: "NilObject = NilObject \<or> (Type NilObject \<noteq> Some RETURN_VALUE_OBJ \<and> Type NilObject \<noteq> Some ERROR_OBJ)"
    by simp
  have "Eval h (Suc (Suc n)) (Block (BlockStatement (pre @ [LetStatement name e]))) env s0
      = evalBlockStatement (Eval h (Suc n)) NilObject (pre @ [LetStatement name e]) env s0"
    by (simp only: Eval.simps Eval_switch.simps)
  also have "\<dots> = evalBlockStatement (Eval h (Suc n)) NilObject [] env s2"
    by (simp only: b evalBlockStatement_continue [where ev = "Eval h (Suc n)", OF l n])
  finally have b': "Eval h (Suc (Suc n)) (Block (BlockStatement (pre @ [LetStatement name e]))) env s0
      = Ok (NilObject, s2)"
    by (simp only: evalBlockStatement.simps)
  have "Eval h (Suc (Suc n)) (Program (pre @ [LetStatement name e])) env s0
      = evalProgram (Eval h (Suc n)) NilObject (pre @ [LetStatement name e]) env s0"
    by (simp only: Eval.simps Eval_switch.simps)
  also have "\<dots> = evalProgram (Eval h (Suc n)) NilObject [] env s2"
    by (simp only: p evalProgram_continue [where ev = "Eval h (Suc n)", OF l n])
  finally have p': "Eval h (Suc (Suc n)) (Program (pre @ [LetStatement name e])) env s0
      = Ok (NilObject, s2)"
    by (simp only: evalProgram.simps)
  from l g b' p' show ?thesis by simp
qed

theorem let_statement_returns_nil_witness:
  "Eval sourceOrderHost (Suc (Suc (Suc 0)))
     (Program ([ExpressionStatement (IntegerLiteral 5)] @ [LetStatement ''a'' (IntegerLiteral 1)]))
     0 initialState
   = Ok (NilObject,
         initialState\<lparr>envs := [0 \<mapsto> \<lparr>store = [''a'' \<mapsto> Integer 2 1], outer = None\<rparr>],
                      nxt := 3\<rparr>)
   \<and> NilObject \<noteq> NULL"
proof -
  let ?h = sourceOrderHost
  let ?s = "initialState\<lparr>nxt := 2\<rparr>"
  let ?s1 = "initialState\<lparr>nxt := 3\<rparr>"
  have 1: "Eval ?h (Suc 0) (Expression (IntegerLiteral 1)) 0 ?s = Ok (Integer 2 1, ?s1)"
    by (simp add: example_defs)
  have 2: "\<not> isError (Integer 2 1)" by simp
  have 3: "envs ?s1 0 = Some \<lparr>store = Map.empty, outer = None\<rparr>"
    by (simp add: example_defs)
  have 4: "evalBlockStatement (Eval ?h (Suc (Suc 0))) NilObject
             [ExpressionStatement (IntegerLiteral 5)] 0 initialState = Ok (Integer 1 5, ?s)"
    by (simp add: example_defs)
  have 5: "Integer 1 5 = NilObject
      \<or> (Type (Integer 1 5) \<noteq> Some RETURN_VALUE_OBJ \<and> Type (Integer 1 5) \<noteq> Some ERROR_OBJ)"
    by simp
  have 6: "?s1\<lparr>envs := (envs ?s1)(0 \<mapsto>
             \<lparr>store = Map.empty, outer = None\<rparr>\<lparr>store := (store \<lparr>store = Map.empty, outer = None\<rparr>)(''a'' \<mapsto> Integer 2 1)\<rparr>)\<rparr>
      = initialState\<lparr>envs := [0 \<mapsto> \<lparr>store = [''a'' \<mapsto> Integer 2 1], outer = None\<rparr>],
                      nxt := 3\<rparr>"
    by (simp add: example_defs)
  from let_statement_returns_nil [OF 1 2 3 4 5 refl, of "''a''"] show ?thesis
    unfolding 6 by blast
qed

section \<open>Errors in argument lists and array literals\<close>

text \<open>
  C8: in the argument list of a call and in the element list of an array literal the
  expressions are evaluated from left to right; if the expressions \<open>pre\<close> evaluate
  without error and the next one, \<open>e\<close>, evaluates to an Error, the whole call or array
  expression evaluates to that same Error object, and the state is the one \<open>e\<close> left:
  no expression of \<open>post\<close> is evaluated, so nothing is printed after the error.
\<close>

theorem argument_error_short_circuits:
  assumes "evalExpressions (Eval h n) [] pre env s = Ok (vs, s1)"
    and "\<not> (length vs = 1 \<and> isError (vs ! 0))"
    and "Eval h n (Expression e) env s1 = Ok (Error l m, s2)"
    and "Eval h n (Expression f) env s0 = Ok (fn, s)"
    and "\<not> isError fn"
  shows "evalExpressions (Eval h n) [] (pre @ e # post) env s = Ok ([Error l m], s2)
    \<and> Eval h (Suc n) (Expression (ArrayLiteral (pre @ e # post))) env s = Ok (Error l m, s2)
    \<and> Eval h (Suc n) (Expression (CallExpression f (pre @ e # post))) env s0
        = Ok (Error l m, s2)"
proof -
  have "evalExpressions (Eval h n) [] (pre @ e # post) env s
      = evalExpressions (Eval h n) vs (e # post) env s1"
    using assms(1,2) by (rule evalExpressions_append)
  with assms(3) have a: "evalExpressions (Eval h n) [] (pre @ e # post) env s
      = Ok ([Error l m], s2)"
    by simp
  with assms(4,5) show ?thesis by simp
qed


theorem argument_error_short_circuits_witness:
  "Eval sourceOrderHost (Suc 3)
     (Expression (CallExpression (Identifier ''len'')
                    ([putsCall 1] @ Identifier ''foo'' # [putsCall 2])))
     0 initialState
   = Ok (Error 4 ''identifier not found: foo'',
         initialState\<lparr>nxt := 5, stdout := [Integer 3 1]\<rparr>)"
proof -
  let ?h = sourceOrderHost
  let ?s = "initialState\<lparr>nxt := 2\<rparr>"
  let ?s1 = "initialState\<lparr>nxt := 4, stdout := [Integer 3 1]\<rparr>"
  let ?s2 = "initialState\<lparr>nxt := 5, stdout := [Integer 3 1]\<rparr>"
  have 1: "evalExpressions (Eval ?h 3) [] [putsCall 1] 0 ?s = Ok ([NULL], ?s1)"
    by (simp add: example_defs putsCall_def numeral_eq_Suc evalIdentifier_def builtins_def)
  have 2: "\<not> (length [NULL] = 1 \<and> isError ([NULL] ! 0))" by simp
  have 3: "Eval ?h 3 (Expression (Identifier ''foo'')) 0 ?s1
      = Ok (Error 4 ''identifier not found: foo'', ?s2)"
    by (simp add: example_defs numeral_eq_Suc evalIdentifier_def builtins_def newError_def)
  have 4: "Eval ?h 3 (Expression (Identifier ''len'')) 0 initialState = Ok (BuiltIn LenFunc, ?s)"
    by (simp add: example_defs numeral_eq_Suc evalIdentifier_def builtins_def)
  have 5: "\<not> isError (BuiltIn LenFunc)" by simp
  from argument_error_short_circuits [OF 1 2 3 4 5] show ?thesis by blast
qed

section \<open>Return statements\<close>

lemma nestedReturn_Eval:
  "nestedReturn h env n st s l v s' \<Longrightarrow>
   Eval h n (Statement st) env s = Ok (ReturnValue l v, s')"
proof (induction rule: nestedReturn.induct)
  case (return n e s v s1)
  then show ?case by simp
next
  case (consequence n c s condition s1 pre r s2 st l v s3 post alt)
  have "Eval h (Suc (Suc (Suc n)))
      (Statement (ExpressionStatement (IfExpression c (BlockStatement (pre @ st # post)) alt))) env s
      = evalIfExpression (Eval h (Suc n)) c (BlockStatement (pre @ st # post)) alt env s"
    by (simp only: Eval.simps Eval_switch.simps)
  also have "\<dots> = Eval h (Suc n) (Block (BlockStatement (pre @ st # post))) env s1"
    using consequence.hyps(1,2,3) by (simp only: evalIfExpression_def andThen_simps) simp
  also have "\<dots> = evalBlockStatement (Eval h n) NilObject (pre @ st # post) env s1"
    by (simp only: Eval.simps Eval_switch.simps)
  also have "\<dots> = Ok (ReturnValue l v, s3)"
    using consequence.hyps(4,5) consequence.IH by (rule evalBlockStatement_reaches_return)
  finally show ?case .
next
  case (alternative n c s condition s1 pre r s2 st l v s3 cons post)
  have "Eval h (Suc (Suc (Suc n)))
      (Statement (ExpressionStatement
         (IfExpression c cons (Some (BlockStatement (pre @ st # post)))))) env s
      = evalIfExpression (Eval h (Suc n)) c cons (Some (BlockStatement (pre @ st # post))) env s"
    by (simp only: Eval.simps Eval_switch.simps)
  also have "\<dots> = Eval h (Suc n) (Block (BlockStatement (pre @ st # post))) env s1"
    using alternative.hyps(1,2,3) by (simp only: evalIfExpression_def andThen_simps) simp
  also have "\<dots> = evalBlockStatement (Eval h n) NilObject (pre @ st # post) env s1"
    by (simp only: Eval.simps Eval_switch.simps)
  also have "\<dots> = Ok (ReturnValue l v, s3)"
    using alternative.hyps(4,5) alternative.IH by (rule evalBlockStatement_reaches_return)
  finally show ?case .
qed

text \<open>
  C7, as the claim states it, fails: a return statement inside a block that is the
  value of a let statement does not end the enclosing function or program. In
  \<open>let x = if (true) { return 1; }; 2;\<close> the ReturnValue object is bound to \<open>x\<close> and
  evaluation goes on: the program, and the call of a function with this body, yield 2.
\<close>

theorem return_in_let_value_does_not_return:
  "Eval sourceOrderHost 6 (Program swallowedReturn) 0 initialState
     = Ok (Integer 3 2,
           initialState\<lparr>envs := [0 \<mapsto> \<lparr>store = [''x'' \<mapsto> ReturnValue 2 (Integer 1 1)],
                                         outer = None\<rparr>],
                        nxt := 4\<rparr>)
   \<and> Eval sourceOrderHost 9 swallowedReturnCall 0 initialState
     = Ok (Integer 5 2,
           initialState\<lparr>envs := (envs initialState)
                          (2 \<mapsto> \<lparr>store = [''x'' \<mapsto> ReturnValue 4 (Integer 3 1)],
                                 outer = Some 0\<rparr>),
                        nxt := 6\<rparr>)"
  by (simp add: swallowedReturnCall_def swallowedReturn_def example_defs numeral_eq_Suc
      nativeBoolToBooleanObject_def Env_Set_def extendFunctionEnv_def NewClosedEnv_def
      evalIfExpression_def)

text \<open>
  C7, amended: when every enclosing block is the consequence or the alternative of an
  if expression that is itself a statement of the next block (so that the ReturnValue
  is the value of a statement of each enclosing block), the ReturnValue object made by
  a return statement inside any nesting depth of blocks is the value of every
  enclosing statement and block, unchanged; the call of a function with that body
  unwraps it once and returns the value \<open>v\<close> it holds, and so does the evaluation of a
  Program with these statements at top level
  (\<open>if (10 > 1) { if (10 > 1) { return 10; } return 1; }\<close> yields 10).
\<close>

theorem return_propagates_and_unwraps_once:
  assumes "nestedReturn h env n st s l v s'"
    and "evalBlockStatement (Eval h n) NilObject pre env s0 = Ok (r, s)"
    and "r = NilObject \<or> (Type r \<noteq> Some RETURN_VALUE_OBJ \<and> Type r \<noteq> Some ERROR_OBJ)"
  shows "Eval h n (Statement st) env s = Ok (ReturnValue l v, s')
    \<and> Eval h (Suc n) (Block (BlockStatement (pre @ st # post))) env s0
        = Ok (ReturnValue l v, s')
    \<and> (extendFunctionEnv params fenv args sc = Ok (env, s0) \<longrightarrow>
         applyFunction (Eval h (Suc n))
           (Function lf params (BlockStatement (pre @ st # post)) fenv) args sc = Ok (v, s'))
    \<and> Eval h (Suc n) (Program (pre @ st # post)) env s0 = Ok (v, s')"
proof -
  have e: "Eval h n (Statement st) env s = Ok (ReturnValue l v, s')"
    using assms(1) by (rule nestedReturn_Eval)
  have "Eval h (Suc n) (Block (BlockStatement (pre @ st # post))) env s0
      = evalBlockStatement (Eval h n) NilObject (pre @ st # post) env s0"
    by (simp only: Eval.simps Eval_switch.simps)
  also have "\<dots> = Ok (ReturnValue l v, s')"
    using assms(2,3) e by (rule evalBlockStatement_reaches_return)
  finally have b: "Eval h (Suc n) (Block (BlockStatement (pre @ st # post))) env s0
      = Ok (ReturnValue l v, s')" .
  have "Eval h (Suc n) (Program (pre @ st # post)) env s0
      = evalProgram (Eval h n) NilObject (pre @ st # post) env s0"
    by (simp only: Eval.simps Eval_switch.simps)
  also have "\<dots> = Ok (v, s')"
    using assms(2,3) e by (rule evalProgram_reaches_return)
  finally have p: "Eval h (Suc n) (Program (pre @ st # post)) env s0 = Ok (v, s')" .
  have f: "applyFunction (Eval h (Suc n))
           (Function lf params (BlockStatement (pre @ st # post)) fenv) args sc = Ok (v, s')"
    if "extendFunctionEnv params fenv args sc = Ok (env, s0)"
    using that b by (simp del: Eval.simps)
  from e b p f show ?thesis by blast
qed

theorem return_propagates_and_unwraps_once_witness:
  "Eval sourceOrderHost (Suc (Suc (Suc (Suc (Suc (Suc (Suc (Suc (Suc 0)))))))))
     (Program ([] @ nestedReturnStatement # [])) 0 initialState
   = Ok (Integer 7 10, initialState\<lparr>nxt := 9\<rparr>)"
proof -
  let ?h = sourceOrderHost
  let ?s4 = "initialState\<lparr>nxt := 4\<rparr>"
  let ?s7 = "initialState\<lparr>nxt := 7\<rparr>"
  let ?s8 = "initialState\<lparr>nxt := 8\<rparr>"
  let ?s9 = "initialState\<lparr>nxt := 9\<rparr>"
  have nil: "NilObject = NilObject
      \<or> (Type NilObject \<noteq> Some RETURN_VALUE_OBJ \<and> Type NilObject \<noteq> Some ERROR_OBJ)"
    by simp
  have lit: "Eval ?h (Suc 0) (Expression (IntegerLiteral 10)) 0 ?s7 = Ok (Integer 7 10, ?s8)"
    by (simp add: example_defs)
  have "nestedReturn ?h 0 (Suc (Suc 0)) (ReturnStatement (IntegerLiteral 10)) ?s7
          (nxt ?s8) (Integer 7 10) (alloc ?s8)"
    using lit by (rule nestedReturn.return) simp
  then have ret: "nestedReturn ?h 0 (Suc (Suc 0)) (ReturnStatement (IntegerLiteral 10)) ?s7
          8 (Integer 7 10) ?s9"
    by (simp add: example_defs)
  have c1: "Eval ?h (Suc (Suc (Suc 0))) (Expression greaterCondition) 0 ?s4 = Ok (TRUE, ?s7)"
    by (simp add: example_defs greaterCondition_def evalInfixExpression_def
        nativeBoolToBooleanObject_def)
  have b1: "evalBlockStatement (Eval ?h (Suc (Suc 0))) NilObject [] 0 ?s7 = Ok (NilObject, ?s7)"
    by simp
  have "nestedReturn ?h 0 (Suc (Suc (Suc (Suc (Suc 0)))))
          (ExpressionStatement (IfExpression greaterCondition
             (BlockStatement ([] @ ReturnStatement (IntegerLiteral 10) # [])) None))
          ?s4 8 (Integer 7 10) ?s9"
    using c1 _ _ b1 nil ret by (rule nestedReturn.consequence) simp_all
  then have inner: "nestedReturn ?h 0 (Suc (Suc (Suc (Suc (Suc 0))))) innerIfStatement
          ?s4 8 (Integer 7 10) ?s9"
    by (simp add: innerIfStatement_def)
  have c2: "Eval ?h (Suc (Suc (Suc (Suc (Suc (Suc 0)))))) (Expression greaterCondition) 0
          initialState = Ok (TRUE, ?s4)"
    by (simp add: example_defs greaterCondition_def evalInfixExpression_def
        nativeBoolToBooleanObject_def)
  have b2: "evalBlockStatement (Eval ?h (Suc (Suc (Suc (Suc (Suc 0)))))) NilObject [] 0 ?s4
      = Ok (NilObject, ?s4)"
    by simp
  have "nestedReturn ?h 0 (Suc (Suc (Suc (Suc (Suc (Suc (Suc (Suc 0))))))))
          (ExpressionStatement (IfExpression greaterCondition
             (BlockStatement ([] @ innerIfStatement # [ReturnStatement (IntegerLiteral 1)])) None))
          initialState 8 (Integer 7 10) ?s9"
    using c2 _ _ b2 nil inner by (rule nestedReturn.consequence) simp_all
  then have outer: "nestedReturn ?h 0 (Suc (Suc (Suc (Suc (Suc (Suc (Suc (Suc 0))))))))
          nestedReturnStatement initialState 8 (Integer 7 10) ?s9"
    by (simp add: nestedReturnStatement_def)
  have b3: "evalBlockStatement (Eval ?h (Suc (Suc (Suc (Suc (Suc (Suc (Suc (Suc 0)))))))))
          NilObject [] 0 initialState = Ok (NilObject, initialState)"
    by simp
  from return_propagates_and_unwraps_once [OF outer b3 nil] show ?thesis by blast
qed

section \<open>Hash literals\<close>

lemma evalHashLiteral_append:
  "evalHashLiteral h ev pairs ps env s = Ok (Hash (nxt s1) pairs1, alloc s1) \<Longrightarrow>
   evalHashLiteral h ev pairs (ps @ qs) env s = evalHashLiteral h ev pairs1 qs env s1"
proof (induction ps arbitrary: pairs s)
  case Nil
  then have "nxt s = nxt s1" and "pairs = pairs1" and "alloc s = alloc s1" by simp_all
  then have "s = s1" by (cases s, cases s1) (simp add: alloc_def)
  with \<open>pairs = pairs1\<close> show ?case by simp
next
  case (Cons p ps)
  obtain keyNode valNode where p: "p = (keyNode, valNode)" by (cases p)
  show ?case
    using Cons.prems Cons.IH unfolding p
    by (auto simp: andThen_def newError_def split: res.splits if_splits option.splits)
qed


text \<open>
  C6, as the claim states it, fails: the pairs of a hash literal are a Go map, and
  \<open>range\<close> may visit them in any order. On a host that visits them in reverse,
  \<open>{"a": 1, "a": 2}["a"]\<close> is 1: the first pair of the source wins.
\<close>

theorem reverse_range_keeps_first_pair:
  "host_ok reverseOrderHost
   \<and> Eval reverseOrderHost 5 duplicateKeyProgram 0 initialState
       = Ok (Integer 4 1, initialState\<lparr>nxt := 8\<rparr>)"
  by (simp add: host_ok_def duplicateKeyProgram_def example_defs numeral_eq_Suc
      evalIndexExpression_def evalHashIndexExpression_def)

text \<open>
  C6, amended: evaluating a HashLiteral processes its pairs in the order in which
  \<open>range\<close> visits them (some order of the pairs, not always the source order), and
  when a pair has the hash key of a pair processed before it, it overwrites that pair:
  the hash holds the key and value of the pair processed last, and the pairs under
  other hash keys are left alone.
\<close>

theorem hash_literal_later_pair_overwrites:
  assumes "evalHashLiteral h (Eval h n) [] ps env s = Ok (Hash (nxt s1) pairs1, alloc s1)"
    and "Eval h n (Expression keyNode) env s1 = Ok (key, s2)"
    and "\<not> isError key"
    and "HashKey_of h key = Some hashed"
    and "Eval h n (Expression valNode) env s2 = Ok (val, s3)"
    and "\<not> isError val"
  shows "Eval h (Suc n) (Expression (HashLiteral src)) env s
        = evalHashLiteral h (Eval h n) [] (rangeOrder h src) env s
    \<and> evalHashLiteral h (Eval h n) [] (ps @ [(keyNode, valNode)]) env s
        = Ok (Hash (nxt s3) (AList.update hashed (key, val) pairs1), alloc s3)
    \<and> map_of (AList.update hashed (key, val) pairs1) hashed = Some (key, val)
    \<and> (\<forall>k. k \<noteq> hashed \<longrightarrow> map_of (AList.update hashed (key, val) pairs1) k = map_of pairs1 k)"
proof -
  have "evalHashLiteral h (Eval h n) [] (ps @ [(keyNode, valNode)]) env s
      = evalHashLiteral h (Eval h n) pairs1 [(keyNode, valNode)] env s1"
    using assms(1) by (rule evalHashLiteral_append)
  also have "\<dots> = Ok (Hash (nxt s3) (AList.update hashed (key, val) pairs1), alloc s3)"
    using assms(2-6) by (simp del: Eval.simps)
  finally show ?thesis
    by (simp add: update_conv' del: Eval.simps) simp
qed

theorem hash_literal_later_pair_overwrites_witness:
  "evalHashLiteral sourceOrderHost (Eval sourceOrderHost (Suc 0)) []
     ([(StringLiteral ''a'', IntegerLiteral 1)] @ [(StringLiteral ''a'', IntegerLiteral 2)])
     0 initialState
   = Ok (Hash 5 [(HashKey STRING_OBJ 1, String 3 ''a'', Integer 4 2)], initialState\<lparr>nxt := 6\<rparr>)"
proof -
  let ?h = sourceOrderHost
  let ?s3 = "initialState\<lparr>nxt := 3\<rparr>"
  let ?s4 = "initialState\<lparr>nxt := 4\<rparr>"
  let ?s5 = "initialState\<lparr>nxt := 5\<rparr>"
  have 1: "evalHashLiteral ?h (Eval ?h (Suc 0)) [] [(StringLiteral ''a'', IntegerLiteral 1)]
             0 initialState
      = Ok (Hash (nxt ?s3) [(HashKey STRING_OBJ 1, String 1 ''a'', Integer 2 1)], alloc ?s3)"
    by (simp add: example_defs)
  have 2: "Eval ?h (Suc 0) (Expression (StringLiteral ''a'')) 0 ?s3 = Ok (String 3 ''a'', ?s4)"
    by (simp add: example_defs)
  have 3: "\<not> isError (String 3 ''a'')" by simp
  have 4: "HashKey_of ?h (String 3 ''a'') = Some (HashKey STRING_OBJ 1)"
    by (simp add: example_defs)
  have 5: "Eval ?h (Suc 0) (Expression (IntegerLiteral 2)) 0 ?s4 = Ok (Integer 4 2, ?s5)"
    by (simp add: example_defs)
  have 6: "\<not> isError (Integer 4 2)" by simp
  from hash_literal_later_pair_overwrites [OF 1 2 3 4 5 6] show ?thesis
    by (simp add: example_defs del: Eval.simps evalHashLiteral.simps)
qed


section \<open>The parser on a let or return statement without a semicolon\<close>

lemma skipToSemicolon_never_returns:
  "\<not> currTIs SEMICOLON p \<Longrightarrow> \<not> peekTokenIs SEMICOLON p \<Longrightarrow>
   SEMICOLON \<notin> Type_tok ` set (lexer p) \<Longrightarrow> skipToSemicolon k p = Timeout"
proof (induction k arbitrary: p)
  case 0
  then show ?case by simp
next
  case (Suc k)
  have "skipToSemicolon k (nextToken p) = Timeout"
    using Suc.prems
    by (intro Suc.IH)
      (auto simp: nextToken_def NextToken_def currTIs_def peekTokenIs_def split: list.splits)
  with Suc.prems show ?case by simp
qed

text \<open>
  C3: \<open>ParseProgram\<close> does not return on \<open>let x = 5\<close> nor on \<open>return 5\<close>, whatever the
  fuel: after the expression, the loop that looks for the semicolon reads \<open>EOF\<close>
  for ever. With the semicolon, \<open>let x = 5;\<close>, it returns at the end of the input.
\<close>

theorem let_without_semicolon_never_returns:
  "ParseProgram n (New letTokens) = Timeout
   \<and> ParseProgram n (New returnTokens) = Timeout
   \<and> ParseProgram (Suc (Suc n)) (New letSemicolonTokens)
       = Ok \<lparr>lexer = [], currT = \<lparr>Type_tok = EOF, Literal = []\<rparr>,
               peekT = \<lparr>Type_tok = EOF, Literal = []\<rparr>\<rparr>"
proof -
  let ?p3 = "\<lparr>lexer = [], currT = \<lparr>Type_tok = INT_tok, Literal = ''5''\<rparr>,
              peekT = \<lparr>Type_tok = EOF, Literal = []\<rparr>\<rparr>"
  have skip: "skipToSemicolon k ?p3 = Timeout" for k
    by (rule skipToSemicolon_never_returns) (simp_all add: currTIs_def peekTokenIs_def)
  have pe: "parseExpression m LOWEST ?p3 = Timeout \<or> parseExpression m LOWEST ?p3 = Ok ?p3" for m
  proof (cases m)
    case 0
    then show ?thesis by simp
  next
    case (Suc j)
    then show ?thesis
      by (cases j) (simp_all add: parseExpression_body_def peekTokenIs_def peekPrecendence_def)
  qed
  have "parseLetStatement n (parseExpression n) (New letTokens) = Timeout"
    using pe [of n] skip [of n]
    by (auto simp: parseLetStatement_def New_def letTokens_def NextToken_def expectPeek_def
        peekTokenIs_def nextToken_def)
  then have st: "parseStatment n (parseExpression n) (New letTokens) = Timeout"
    by (simp add: parseStatment_def New_def letTokens_def NextToken_def)
  have "parseReturnStatement n (parseExpression n) (New returnTokens) = Timeout"
    using pe [of n] skip [of n]
    by (auto simp: parseReturnStatement_def New_def returnTokens_def NextToken_def
        nextToken_def)
  then have rt: "parseStatment n (parseExpression n) (New returnTokens) = Timeout"
    by (simp add: parseStatment_def New_def returnTokens_def NextToken_def)
  have 1: "ParseProgram n (New letTokens) = Timeout"
  proof (cases n)
    case 0
    then show ?thesis by (simp add: ParseProgram_def)
  next
    case (Suc k)
    have "ParseProgram_loop (Suc k) n (parseExpression n) (New letTokens) = Timeout"
      unfolding ParseProgram_loop.simps st
      by (simp add: New_def letTokens_def NextToken_def)
    with Suc show ?thesis by (simp add: ParseProgram_def)
  qed
  have 2: "ParseProgram n (New returnTokens) = Timeout"
  proof (cases n)
    case 0
    then show ?thesis by (simp add: ParseProgram_def)
  next
    case (Suc k)
    have "ParseProgram_loop (Suc k) n (parseExpression n) (New returnTokens) = Timeout"
      unfolding ParseProgram_loop.simps rt
      by (simp add: New_def returnTokens_def NextToken_def)
    with Suc show ?thesis by (simp add: ParseProgram_def)
  qed
  have 3: "ParseProgram (Suc (Suc n)) (New letSemicolonTokens)
       = Ok \<lparr>lexer = [], currT = \<lparr>Type_tok = EOF, Literal = []\<rparr>,
               peekT = \<lparr>Type_tok = EOF, Literal = []\<rparr>\<rparr>"
    by (simp add: ParseProgram_def New_def letSemicolonTokens_def letTokens_def NextToken_def
        parseStatment_def parseLetStatement_def expectPeek_def peekTokenIs_def nextToken_def
        parseExpression_body_def currTIs_def)
  from 1 2 3 show ?thesis by simp
qed

end
